theory Spec2Isabelle
  imports Main
begin

section \<open>Data model (types/user.types.ts)\<close>

text \<open>
  A JavaScript string is modelled as \<^typ>\<open>string\<close>, one \<^typ>\<open>char\<close> per code unit (code
  units below 256). A \<^verbatim>\<open>Date\<close> is its time value, an \<^typ>\<open>int\<close> of milliseconds.
  The field \<^verbatim>\<open>id\<close> is written \<open>id'\<close>, since \<open>id\<close> is the identity function
  of HOL. The fields of the two DTOs carry a prefix (\<open>c_\<close> for \<^verbatim>\<open>CreateUserDto\<close>,
  \<open>u_\<close> for \<^verbatim>\<open>UpdateUserDto\<close>), since record fields of one theory share a name space.
  An optional field of \<^verbatim>\<open>UpdateUserDto\<close> is an \<^typ>\<open>'a option\<close>: \<open>None\<close> is the
  absent property, as the JSON body of a request delivers it.
\<close>

type_synonym date = int

record User =
  id' :: string
  name :: string
  email :: string
  createdAt :: date
  updatedAt :: date

record CreateUserDto =
  c_name :: string
  c_email :: string

record UpdateUserDto =
  u_name :: "string option"
  u_email :: "string option"

datatype event_type = created | updated | deleted

record UserEvent =
  type' :: event_type
  user :: User

record 'a ApiResponse =
  data :: "'a option"
  error :: "string option"
  message :: "string option"

text \<open>
  What a \<^verbatim>\<open>throw\<close> carries: an instance of \<^verbatim>\<open>Error\<close> with its message, or any
  other value (for which \<^verbatim>\<open>error instanceof Error\<close> is false).
\<close>

datatype thrown = Error string | NonError string

section \<open>Strings and arrays of the platform\<close>

text \<open>
  White space as \<^verbatim>\<open>String.prototype.trim\<close> and the class \<^verbatim>\<open>\s\<close> of a regular
  expression read it, restricted to the code units below 256: TAB, LF, VT, FF, CR,
  SPACE and NO-BREAK SPACE.
\<close>

definition is_space :: "char \<Rightarrow> bool" where
  "is_space c = (c \<in> {CHR 0x09, CHR 0x0A, CHR 0x0B, CHR 0x0C, CHR 0x0D, CHR 0x20, CHR 0xA0})"

definition trim :: "string \<Rightarrow> string" where
  "trim s = rev (dropWhile is_space (rev (dropWhile is_space s)))"

text \<open>\<^verbatim>\<open>Array.prototype.join\<close> on an array of strings.\<close>

fun join :: "string \<Rightarrow> string list \<Rightarrow> string" where
  "join sep [] = []"
| "join sep [x] = x"
| "join sep (x # y # ys) = x @ sep @ join sep (y # ys)"

text \<open>\<^verbatim>\<open>String.prototype.includes\<close>: the argument occurs as a contiguous part.\<close>

fun includes_str :: "string \<Rightarrow> string \<Rightarrow> bool" where
  "includes_str [] sub = (sub = [])"
| "includes_str (c # cs) sub = (take (length sub) (c # cs) = sub \<or> includes_str cs sub)"

text \<open>
  \<^verbatim>\<open>Array.prototype.findIndex\<close>: the index of the first element that satisfies the
  predicate; \<open>None\<close> stands for the result \<^verbatim>\<open>-1\<close>.
\<close>

fun findIndex :: "('a \<Rightarrow> bool) \<Rightarrow> 'a list \<Rightarrow> nat option" where
  "findIndex P [] = None"
| "findIndex P (x # xs) =
     (if P x then Some 0 else map_option Suc (findIndex P xs))"

text \<open>
  \<^verbatim>\<open>Array.prototype.slice(start, end)\<close> on integer arguments: a negative argument
  counts from the end, both are clamped to the bounds of the array, and the result has
  \<open>max (final - k) 0\<close> elements from index \<open>k\<close>.
\<close>

definition slice :: "int \<Rightarrow> int \<Rightarrow> 'a list \<Rightarrow> 'a list" where
  "slice start end' xs =
     (let len = int (length xs);
          k = (if start < 0 then max (len + start) 0 else min start len);
          final = (if end' < 0 then max (len + end') 0 else min end' len)
      in take (nat (final - k)) (drop (nat k) xs))"

text \<open>\<^verbatim>\<open>Array.prototype.splice(index, 1)\<close>: the array without the element at \<open>index\<close>.\<close>

definition splice1 :: "nat \<Rightarrow> 'a list \<Rightarrow> 'a list" where
  "splice1 index xs = take index xs @ drop (Suc index) xs"

text \<open>The decimal digits of a number, as a template literal prints it.\<close>

definition digit :: "nat \<Rightarrow> char" where
  "digit n = ''0123456789'' ! n"

fun show_nat :: "nat \<Rightarrow> string" where
  "show_nat n =
     (if n < 10 then [digit n]
      else show_nat (n div 10) @ [digit (n mod 10)])"

declare show_nat.simps [simp del]

section \<open>User model (models/User.model.ts)\<close>

text \<open>
  \<^verbatim>\<open>UserModel.create\<close> reads the platform three times: \<^verbatim>\<open>crypto.randomUUID()\<close> and
  \<^verbatim>\<open>new Date()\<close> twice. The answers are the first three arguments.
\<close>

definition UserModel_create :: "string \<Rightarrow> date \<Rightarrow> date \<Rightarrow> CreateUserDto \<Rightarrow> User" where
  "UserModel_create uuid t1 t2 dto =
     \<lparr>id' = uuid, name = c_name dto, email = c_email dto, createdAt = t1, updatedAt = t2\<rparr>"

text \<open>
  \<^verbatim>\<open>UserModel.update\<close>: the spread of the patch over the existing user writes the
  properties the patch has, then \<^verbatim>\<open>updatedAt\<close> is the clock's answer.
\<close>

definition UserModel_update :: "date \<Rightarrow> User \<Rightarrow> UpdateUserDto \<Rightarrow> User" where
  "UserModel_update t1 existingUser updateDto =
     existingUser
       \<lparr>name := (case u_name updateDto of None \<Rightarrow> name existingUser | Some n \<Rightarrow> n),
        email := (case u_email updateDto of None \<Rightarrow> email existingUser | Some e \<Rightarrow> e),
        updatedAt := t1\<rparr>"

text \<open>
  \<^verbatim>\<open>isValidEmail\<close> tests \<^verbatim>\<open>/^[^\s@]+@[^\s@]+\.[^\s@]+$/\<close>. A character of the class
  \<^verbatim>\<open>[^\s@]\<close> is \<open>email_char\<close>. The first run of such characters is the local part and
  must be followed by the one \<^verbatim>\<open>@\<close>; the rest has only such characters, with a dot
  that is neither its first nor its last character.
\<close>

definition email_char :: "char \<Rightarrow> bool" where
  "email_char c = (\<not> is_space c \<and> c \<noteq> CHR ''@'')"

definition isValidEmail :: "string \<Rightarrow> bool" where
  "isValidEmail e =
     (takeWhile email_char e \<noteq> [] \<and>
      (case dropWhile email_char e of
         [] \<Rightarrow> False
       | c # d \<Rightarrow> c = CHR ''@'' \<and> list_all email_char d \<and> CHR ''.'' \<in> set (butlast (tl d))))"

definition isValidName :: "string \<Rightarrow> bool" where
  "isValidName n = (length (trim n) \<ge> 2)"

definition validateCreateDto :: "CreateUserDto \<Rightarrow> string list" where
  "validateCreateDto dto =
     (if c_name dto = [] \<or> \<not> isValidName (c_name dto)
      then [''Name must be at least 2 characters long''] else []) @
     (if c_email dto = [] \<or> \<not> isValidEmail (c_email dto)
      then [''Valid email is required''] else [])"

definition validateUpdateDto :: "UpdateUserDto \<Rightarrow> string list" where
  "validateUpdateDto dto =
     (case u_name dto of
        Some n \<Rightarrow> if \<not> isValidName n then [''Name must be at least 2 characters long''] else []
      | None \<Rightarrow> []) @
     (case u_email dto of
        Some e \<Rightarrow> if \<not> isValidEmail e then [''Valid email is required''] else []
      | None \<Rightarrow> [])"

section \<open>User repository (repositories/UserRepository.ts)\<close>

text \<open>
  The state of the repository is the array \<^verbatim>\<open>users\<close>. The constructor reads the clock
  six times; \<open>now k\<close> is its \<open>k\<close>-th answer.
\<close>

definition seed :: "(nat \<Rightarrow> date) \<Rightarrow> User list" where
  "seed now =
     [\<lparr>id' = ''1'', name = ''John Doe'', email = ''john@example.com'',
        createdAt = now 0, updatedAt = now 1\<rparr>,
      \<lparr>id' = ''2'', name = ''Jane Smith'', email = ''jane@example.com'',
        createdAt = now 2, updatedAt = now 3\<rparr>,
      \<lparr>id' = ''3'', name = ''Alex Johnson'', email = ''alex@example.com'',
        createdAt = now 4, updatedAt = now 5\<rparr>]"

definition findAll :: "User list \<Rightarrow> User list" where
  "findAll users = users"

definition findById :: "string \<Rightarrow> User list \<Rightarrow> User option" where
  "findById i users = find (\<lambda>u. id' u = i) users"

definition findByEmail :: "string \<Rightarrow> User list \<Rightarrow> User option" where
  "findByEmail e users = find (\<lambda>u. email u = e) users"

text \<open>
  \<^verbatim>\<open>create\<close>: the answers of the platform are the UUID, the two clock readings of
  \<^verbatim>\<open>UserModel.create\<close> and the clock reading of the returned copy. The result is the
  thrown value or the returned user, with the new array.
\<close>

definition create ::
  "string \<Rightarrow> date \<Rightarrow> date \<Rightarrow> date \<Rightarrow> CreateUserDto \<Rightarrow> User list \<Rightarrow> (thrown + User) \<times> User list" where
  "create uuid t1 t2 t3 createDto users =
     (case findByEmail (c_email createDto) users of
        Some existingUser \<Rightarrow> (Inl (Error ''User with this email already exists''), users)
      | None \<Rightarrow>
          (let newUser = UserModel_create uuid t1 t2 createDto
           in (Inr (newUser\<lparr>updatedAt := t3\<rparr>), users @ [newUser])))"

text \<open>
  \<^verbatim>\<open>update\<close>: the test \<^verbatim>\<open>if (updateDto.email)\<close> is on the truthiness of the
  property, which an absent property and the empty string both fail.
\<close>

definition truthy :: "string option \<Rightarrow> bool" where
  "truthy x = (case x of None \<Rightarrow> False | Some s \<Rightarrow> s \<noteq> [])"

definition update ::
  "date \<Rightarrow> date \<Rightarrow> string \<Rightarrow> UpdateUserDto \<Rightarrow> User list \<Rightarrow> (thrown + User option) \<times> User list" where
  "update t1 t2 i updateDto users =
     (case findIndex (\<lambda>u. id' u = i) users of
        None \<Rightarrow> (Inr None, users)
      | Some index \<Rightarrow>
          if truthy (u_email updateDto) \<and>
             (case findByEmail (the (u_email updateDto)) users of
                Some existingUser \<Rightarrow> id' existingUser \<noteq> i
              | None \<Rightarrow> False)
          then (Inl (Error ''User with this email already exists''), users)
          else
            (let updatedUser = UserModel_update t1 (users ! index) updateDto
             in (Inr (Some (updatedUser\<lparr>updatedAt := t2\<rparr>)), users[index := updatedUser])))"

definition delete :: "date \<Rightarrow> string \<Rightarrow> User list \<Rightarrow> User option \<times> User list" where
  "delete t1 i users =
     (case findIndex (\<lambda>u. id' u = i) users of
        None \<Rightarrow> (None, users)
      | Some index \<Rightarrow>
          (let deletedUser = users ! index
           in (Some (deletedUser\<lparr>updatedAt := t1\<rparr>), splice1 index users)))"

definition exists :: "string \<Rightarrow> User list \<Rightarrow> bool" where
  "exists i users = list_ex (\<lambda>u. id' u = i) users"

definition count :: "User list \<Rightarrow> nat" where
  "count users = length users"

definition findPaginated :: "int \<Rightarrow> int \<Rightarrow> User list \<Rightarrow> User list" where
  "findPaginated offset limit users = map (\<lambda>u. u) (slice offset (offset + limit) users)"

section \<open>Connection registry (utils/WebSocketManager.ts)\<close>

text \<open>
  A connection is an opaque handle. The registry's \<^verbatim>\<open>Set\<close> is the list of its members in
  insertion order. What the process does to the outside is recorded as a list of
  effects: a call of \<^verbatim>\<open>JSON.stringify\<close>, a call of \<^verbatim>\<open>ws.send\<close> with its message, and
  the lines written by \<^verbatim>\<open>console.log\<close> and \<^verbatim>\<open>console.error\<close>.
\<close>

type_synonym sink = nat

datatype effect =
  Stringify UserEvent
| Send sink string
| ConsoleLog string
| ConsoleError string thrown

text \<open>
  The platform under the registry: \<open>send ws m\<close> is \<open>None\<close> when \<^verbatim>\<open>ws.send(m)\<close>
  returns and \<open>Some e\<close> when it throws \<open>e\<close>; \<open>stringify\<close> is \<^verbatim>\<open>JSON.stringify\<close> on
  events, which returns for every event of this type.
\<close>

record Platform =
  send :: "sink \<Rightarrow> string \<Rightarrow> thrown option"
  stringify :: "UserEvent \<Rightarrow> string"

text \<open>
  The state of the process: the repository's state, the registry's set and the effects
  so far.
\<close>

record 's world =
  store :: 's
  connections :: "sink list"
  effects :: "effect list"

definition emit :: "effect list \<Rightarrow> 's world \<Rightarrow> 's world" where
  "emit es w = w\<lparr>effects := effects w @ es\<rparr>"

definition addConnection :: "sink \<Rightarrow> 's world \<Rightarrow> 's world" where
  "addConnection ws w =
     (let cs = (if ws \<in> set (connections w) then connections w else connections w @ [ws])
      in emit [ConsoleLog (''WebSocket connection added. Total connections: '' @ show_nat (length cs))]
           (w\<lparr>connections := cs\<rparr>))"

definition removeConnection :: "sink \<Rightarrow> 's world \<Rightarrow> 's world" where
  "removeConnection ws w =
     (let cs = removeAll ws (connections w)
      in emit [ConsoleLog (''WebSocket connection removed. Total connections: '' @ show_nat (length cs))]
           (w\<lparr>connections := cs\<rparr>))"

text \<open>
  The body of \<^verbatim>\<open>connections.forEach\<close> in \<^verbatim>\<open>broadcast\<close>, over the members still to
  visit. Deleting the member being visited leaves the members after it in the
  iteration, so the loop visits each member of the set once, in insertion order.
\<close>

record 's delivery =
  world_of :: "'s world"
  successCount :: nat
  failureCount :: nat

fun forEach_send :: "Platform \<Rightarrow> string \<Rightarrow> sink list \<Rightarrow> 's delivery \<Rightarrow> 's delivery" where
  "forEach_send pf msg [] d = d"
| "forEach_send pf msg (ws # rest) d =
     forEach_send pf msg rest
       (case send pf ws msg of
          None \<Rightarrow>
            d\<lparr>world_of := emit [Send ws msg] (world_of d),
              successCount := successCount d + 1\<rparr>
        | Some err \<Rightarrow>
            d\<lparr>world_of :=
                (emit [Send ws msg,
                       ConsoleError ''Failed to send message to WebSocket connection:'' err]
                   (world_of d))
                \<lparr>connections := removeAll ws (connections (world_of d))\<rparr>,
              failureCount := failureCount d + 1\<rparr>)"

fun show_type :: "event_type \<Rightarrow> string" where
  "show_type created = ''created''"
| "show_type updated = ''updated''"
| "show_type deleted = ''deleted''"

definition broadcast :: "Platform \<Rightarrow> UserEvent \<Rightarrow> 's world \<Rightarrow> 's world" where
  "broadcast pf event w =
     (let message = stringify pf event;
          w1 = emit [Stringify event] w;
          connectionCount = length (connections w1)
      in if connectionCount = 0
         then emit [ConsoleLog ''No WebSocket connections to broadcast to''] w1
         else
           (let d = forEach_send pf message (connections w1)
                      \<lparr>world_of = w1, successCount = 0, failureCount = 0\<rparr>
            in emit [ConsoleLog (''Broadcasted '' @ show_type (type' event) @ '' event to '' @
                       show_nat (successCount d) @ '' connections ('' @
                       show_nat (failureCount d) @ '' failures)'')]
                 (world_of d)))"

definition getConnectionCount :: "'s world \<Rightarrow> nat" where
  "getConnectionCount w = length (connections w)"

section \<open>User service (services/UserService.ts)\<close>

text \<open>
  The service is written against the repository it is constructed with. \<open>'s Repo\<close> is
  that interface over a repository state \<open>'s\<close>: each method returns its result or the
  value it throws, and the mutating ones the new state as well.
\<close>

record 's Repo =
  r_findAll :: "'s \<Rightarrow> thrown + User list"
  r_findById :: "string \<Rightarrow> 's \<Rightarrow> thrown + User option"
  r_findByEmail :: "string \<Rightarrow> 's \<Rightarrow> thrown + User option"
  r_create :: "CreateUserDto \<Rightarrow> 's \<Rightarrow> (thrown + User) \<times> 's"
  r_update :: "string \<Rightarrow> UpdateUserDto \<Rightarrow> 's \<Rightarrow> (thrown + User option) \<times> 's"
  r_delete :: "string \<Rightarrow> 's \<Rightarrow> (thrown + User option) \<times> 's"
  r_count :: "'s \<Rightarrow> thrown + nat"
  r_findPaginated :: "int \<Rightarrow> int \<Rightarrow> 's \<Rightarrow> thrown + User list"

text \<open>
  The repository of this program, \<^verbatim>\<open>UserRepository\<close>, as such an interface. One call
  reads the platform at most four times: \<open>uuid\<close> is the answer of
  \<^verbatim>\<open>crypto.randomUUID()\<close>, \<open>now1\<close>, \<open>now2\<close> and \<open>now3\<close> the answers of the successive
  \<^verbatim>\<open>new Date()\<close>.
\<close>

record Answers =
  uuid :: string
  now1 :: date
  now2 :: date
  now3 :: date

definition UserRepository :: "Answers \<Rightarrow> (User list) Repo" where
  "UserRepository a =
     \<lparr>r_findAll = (\<lambda>us. Inr (findAll us)),
      r_findById = (\<lambda>i us. Inr (findById i us)),
      r_findByEmail = (\<lambda>e us. Inr (findByEmail e us)),
      r_create = create (uuid a) (now1 a) (now2 a) (now3 a),
      r_update = update (now1 a) (now2 a),
      r_delete = (\<lambda>i us. (Inr (fst (delete (now1 a) i us)), snd (delete (now1 a) i us))),
      r_count = (\<lambda>us. Inr (count us)),
      r_findPaginated = (\<lambda>offset limit us. Inr (findPaginated offset limit us))\<rparr>"

text \<open>The two shapes of an \<^verbatim>\<open>ApiResponse\<close> the service builds.\<close>

definition failure :: "string \<Rightarrow> 'a ApiResponse" where
  "failure e = \<lparr>data = None, error = Some e, message = None\<rparr>"

definition success :: "'a \<Rightarrow> string \<Rightarrow> 'a ApiResponse" where
  "success d m = \<lparr>data = Some d, error = None, message = Some m\<rparr>"

text \<open>
  \<^verbatim>\<open>broadcastUserEvent\<close>: no statement of \<^verbatim>\<open>broadcast\<close> throws for an event of this
  type, so its handler is not a branch of the model.
\<close>

definition broadcastUserEvent :: "Platform \<Rightarrow> UserEvent \<Rightarrow> 's world \<Rightarrow> 's world" where
  "broadcastUserEvent pf event w = broadcast pf event w"

definition getAllUsers :: "'s Repo \<Rightarrow> 's world \<Rightarrow> (User list) ApiResponse \<times> 's world" where
  "getAllUsers repo w =
     (case r_findAll repo (store w) of
        Inr users \<Rightarrow>
          (success users (''Retrieved '' @ show_nat (length users) @ '' users''), w)
      | Inl e \<Rightarrow>
          (failure ''Failed to retrieve users'', emit [ConsoleError ''Error fetching users:'' e] w))"

definition getUserById :: "'s Repo \<Rightarrow> string \<Rightarrow> 's world \<Rightarrow> User ApiResponse \<times> 's world" where
  "getUserById repo i w =
     (if trim i = [] then (failure ''User ID is required'', w)
      else
        (case r_findById repo i (store w) of
           Inr None \<Rightarrow> (failure ''User not found'', w)
         | Inr (Some u) \<Rightarrow> (success u ''User retrieved successfully'', w)
         | Inl e \<Rightarrow>
             (failure ''Failed to retrieve user'',
              emit [ConsoleError ''Error fetching user by ID:'' e] w)))"

text \<open>The handlers of \<^verbatim>\<open>createUser\<close> and \<^verbatim>\<open>updateUser\<close> return the message of an \<^verbatim>\<open>Error\<close>.\<close>

definition catch_createUser :: "thrown \<Rightarrow> 's world \<Rightarrow> User ApiResponse \<times> 's world" where
  "catch_createUser e w =
     (case e of
        Error m \<Rightarrow> failure m
      | NonError v \<Rightarrow> failure ''Failed to create user'',
      emit [ConsoleError ''Error creating user:'' e] w)"

definition createUser ::
  "'s Repo \<Rightarrow> Platform \<Rightarrow> CreateUserDto \<Rightarrow> 's world \<Rightarrow> User ApiResponse \<times> 's world" where
  "createUser repo pf createDto w =
     (let validationErrors = validateCreateDto createDto
      in if length validationErrors > 0 then (failure (join '', '' validationErrors), w)
         else
           (case r_create repo createDto (store w) of
              (Inl e, s') \<Rightarrow> catch_createUser e (w\<lparr>store := s'\<rparr>)
            | (Inr newUser, s') \<Rightarrow>
                (success newUser ''User created successfully'',
                 broadcastUserEvent pf \<lparr>type' = created, user = newUser\<rparr> (w\<lparr>store := s'\<rparr>))))"

definition catch_updateUser :: "thrown \<Rightarrow> 's world \<Rightarrow> User ApiResponse \<times> 's world" where
  "catch_updateUser e w =
     (case e of
        Error m \<Rightarrow> failure m
      | NonError v \<Rightarrow> failure ''Failed to update user'',
      emit [ConsoleError ''Error updating user:'' e] w)"

definition updateUser ::
  "'s Repo \<Rightarrow> Platform \<Rightarrow> string \<Rightarrow> UpdateUserDto \<Rightarrow> 's world \<Rightarrow> User ApiResponse \<times> 's world" where
  "updateUser repo pf i updateDto w =
     (if trim i = [] then (failure ''User ID is required'', w)
      else
        (let validationErrors = validateUpdateDto updateDto
         in if length validationErrors > 0 then (failure (join '', '' validationErrors), w)
            else
              (case r_findById repo i (store w) of
                 Inl e \<Rightarrow> catch_updateUser e w
               | Inr None \<Rightarrow> (failure ''User not found'', w)
               | Inr (Some existingUser) \<Rightarrow>
                   (case r_update repo i updateDto (store w) of
                      (Inl e, s') \<Rightarrow> catch_updateUser e (w\<lparr>store := s'\<rparr>)
                    | (Inr None, s') \<Rightarrow> (failure ''Failed to update user'', w\<lparr>store := s'\<rparr>)
                    | (Inr (Some updatedUser), s') \<Rightarrow>
                        (success updatedUser ''User updated successfully'',
                         broadcastUserEvent pf \<lparr>type' = updated, user = updatedUser\<rparr>
                           (w\<lparr>store := s'\<rparr>))))))"

definition catch_deleteUser :: "thrown \<Rightarrow> 's world \<Rightarrow> User ApiResponse \<times> 's world" where
  "catch_deleteUser e w =
     (failure ''Failed to delete user'', emit [ConsoleError ''Error deleting user:'' e] w)"

definition deleteUser ::
  "'s Repo \<Rightarrow> Platform \<Rightarrow> string \<Rightarrow> 's world \<Rightarrow> User ApiResponse \<times> 's world" where
  "deleteUser repo pf i w =
     (if trim i = [] then (failure ''User ID is required'', w)
      else
        (case r_findById repo i (store w) of
           Inl e \<Rightarrow> catch_deleteUser e w
         | Inr None \<Rightarrow> (failure ''User not found'', w)
         | Inr (Some existingUser) \<Rightarrow>
             (case r_delete repo i (store w) of
                (Inl e, s') \<Rightarrow> catch_deleteUser e (w\<lparr>store := s'\<rparr>)
              | (Inr None, s') \<Rightarrow> (failure ''Failed to delete user'', w\<lparr>store := s'\<rparr>)
              | (Inr (Some deletedUser), s') \<Rightarrow>
                  (success deletedUser ''User deleted successfully'',
                   broadcastUserEvent pf \<lparr>type' = deleted, user = deletedUser\<rparr>
                     (w\<lparr>store := s'\<rparr>)))))"

record Page =
  users :: "User list"
  total :: nat
  offset :: int
  limit :: int

definition catch_getUsersPaginated :: "thrown \<Rightarrow> 's world \<Rightarrow> Page ApiResponse \<times> 's world" where
  "catch_getUsersPaginated e w =
     (failure ''Failed to retrieve users'',
      emit [ConsoleError ''Error fetching paginated users:'' e] w)"

text \<open>
  \<^verbatim>\<open>Promise.all\<close> over the two calls: both are started, \<^verbatim>\<open>findPaginated\<close> first, and
  the first rejection is the one thrown.
\<close>

definition getUsersPaginated ::
  "'s Repo \<Rightarrow> int \<Rightarrow> int \<Rightarrow> 's world \<Rightarrow> Page ApiResponse \<times> 's world" where
  "getUsersPaginated repo off lim w =
     (if off < 0 \<or> lim \<le> 0 \<or> lim > 100 then (failure ''Invalid pagination parameters'', w)
      else
        (case r_findPaginated repo off lim (store w) of
           Inl e \<Rightarrow> catch_getUsersPaginated e w
         | Inr us \<Rightarrow>
             (case r_count repo (store w) of
                Inl e \<Rightarrow> catch_getUsersPaginated e w
              | Inr n \<Rightarrow>
                  (success \<lparr>users = us, total = n, offset = off, limit = lim\<rparr>
                     (''Retrieved '' @ show_nat (length us) @ '' of '' @ show_nat n @ '' users''),
                   w))))"

definition userExistsByEmail :: "'s Repo \<Rightarrow> string \<Rightarrow> 's world \<Rightarrow> bool \<times> 's world" where
  "userExistsByEmail repo e w =
     (case r_findByEmail repo e (store w) of
        Inr u \<Rightarrow> (u \<noteq> None, w)
      | Inl err \<Rightarrow>
          (False, emit [ConsoleError ''Error checking user existence by email:'' err] w))"

record Stats =
  totalUsers :: nat
  connectionsCount :: nat

definition getUserStats :: "'s Repo \<Rightarrow> 's world \<Rightarrow> Stats ApiResponse \<times> 's world" where
  "getUserStats repo w =
     (case r_count repo (store w) of
        Inr n \<Rightarrow>
          (success \<lparr>totalUsers = n, connectionsCount = getConnectionCount w\<rparr>
             ''User statistics retrieved successfully'', w)
      | Inl e \<Rightarrow>
          (failure ''Failed to retrieve user statistics'',
           emit [ConsoleError ''Error fetching user stats:'' e] w))"

section \<open>User controller (controllers/UserController.ts)\<close>

text \<open>
  The status code the controller answers with when the service returns an error, for
  \<^verbatim>\<open>POST /users\<close> and for \<^verbatim>\<open>PUT /users/:id\<close>: 409 is the conflict outcome.
\<close>

definition createUser_status :: "string \<Rightarrow> nat" where
  "createUser_status err = (if includes_str err ''already exists'' then 409 else 400)"

definition updateUser_status :: "string \<Rightarrow> nat" where
  "updateUser_status err =
     (if err = ''User not found'' then 404
      else if includes_str err ''already exists'' then 409
      else 400)"

section \<open>The states of the running process\<close>

text \<open>
  The process starts with the seeded repository and no connection. Afterwards the
  controller calls \<^verbatim>\<open>createUser\<close>, \<^verbatim>\<open>updateUser\<close> and \<^verbatim>\<open>deleteUser\<close> of the service
  with any arguments, and the transport opens and closes connections. Whatever else the
  process does (the reading operations of the service, a message to one connection,
  closing all connections) leaves the array of users as it is; the last rule stands for
  all of it and allows any change of the connections and the effects. Of the platform it
  is assumed that \<^verbatim>\<open>crypto.randomUUID()\<close> answers a string that is not blank and is not
  the id of a record in the array.
\<close>

inductive reachable :: "(User list) world \<Rightarrow> bool" where
  boot: "reachable \<lparr>store = seed now, connections = [], effects = []\<rparr>"
| by_createUser:
    "reachable w \<Longrightarrow> uuid a \<notin> id' ` set (store w) \<Longrightarrow> trim (uuid a) \<noteq> [] \<Longrightarrow>
     reachable (snd (createUser (UserRepository a) pf createDto w))"
| by_updateUser:
    "reachable w \<Longrightarrow> reachable (snd (updateUser (UserRepository a) pf i updateDto w))"
| by_deleteUser:
    "reachable w \<Longrightarrow> reachable (snd (deleteUser (UserRepository a) pf i w))"
| by_open: "reachable w \<Longrightarrow> reachable (addConnection ws w)"
| by_close: "reachable w \<Longrightarrow> reachable (removeConnection ws w)"
| by_other: "reachable w \<Longrightarrow> reachable (w\<lparr>connections := cs, effects := es\<rparr>)"

text \<open>
  What holds of the array in each of these states: ids and emails are pairwise distinct,
  every email has the shape the service validates, and no id is blank.
\<close>

definition store_ok :: "User list \<Rightarrow> bool" where
  "store_ok us =
     (distinct (map id' us) \<and> distinct (map email us) \<and>
      list_all (\<lambda>u. isValidEmail (email u) \<and> trim (id' u) \<noteq> []) us)"

section \<open>A repository that is down\<close>

text \<open>
  For the service's handling of failures: a repository whose every method throws \<open>e\<close>,
  as a storage backend that cannot be reached would, and a platform whose connections
  accept every message.
\<close>

definition downRepository :: "thrown \<Rightarrow> unit Repo" where
  "downRepository e =
     \<lparr>r_findAll = (\<lambda>s. Inl e),
      r_findById = (\<lambda>i s. Inl e),
      r_findByEmail = (\<lambda>m s. Inl e),
      r_create = (\<lambda>d s. (Inl e, s)),
      r_update = (\<lambda>i d s. (Inl e, s)),
      r_delete = (\<lambda>i s. (Inl e, s)),
      r_count = (\<lambda>s. Inl e),
      r_findPaginated = (\<lambda>off lim s. Inl e)\<rparr>"

definition quietPlatform :: Platform where
  "quietPlatform = \<lparr>send = (\<lambda>ws m. None), stringify = (\<lambda>ev. ''{}'')\<rparr>"

section \<open>Reading the effects\<close>

text \<open>
  Two projections of a list of effects, for stating what a broadcast did: the calls of
  \<^verbatim>\<open>ws.send\<close> with their messages, and the events given to \<^verbatim>\<open>JSON.stringify\<close>, both
  in the order of the calls.
\<close>

fun sends :: "effect list \<Rightarrow> (sink \<times> string) list" where
  "sends [] = []"
| "sends (Send ws m # es) = (ws, m) # sends es"
| "sends (e # es) = sends es"

fun stringified :: "effect list \<Rightarrow> UserEvent list" where
  "stringified [] = []"
| "stringified (Stringify ev # es) = ev # stringified es"
| "stringified (e # es) = stringified es"

section \<open>Facts about the array operations\<close>

lemma findIndex_Some:
  "findIndex P xs = Some i \<Longrightarrow> i < length xs \<and> P (xs ! i) \<and> (\<forall>j<i. \<not> P (xs ! j))"
proof (induction xs arbitrary: i)
  case Nil
  then show ?case by simp
next
  case (Cons x xs)
  show ?case
  proof (cases "P x")
    case True
    with Cons.prems show ?thesis by simp
  next
    case False
    with Cons.prems obtain k where k: "findIndex P xs = Some k" "i = Suc k"
      by auto
    from Cons.IH [OF k(1)] False k(2) show ?thesis
      by (auto simp: nth_Cons split: nat.splits)
  qed
qed

lemma findIndex_None: "findIndex P xs = None \<longleftrightarrow> (\<forall>x\<in>set xs. \<not> P x)"
  by (induction xs) auto

lemma findIndex_find:
  "findIndex P xs = Some i \<Longrightarrow> find P xs = Some (xs ! i)"
  by (induction xs arbitrary: i) (auto split: if_splits)

lemma find_exists_findIndex:
  "(find P xs = None) = (findIndex P xs = None)"
  by (auto simp: find_None_iff findIndex_None)

lemma show_nat_digit: "n < 10 \<Longrightarrow> show_nat n = [digit n]"
  by (simp add: show_nat.simps)

lemma slice_take_drop:
  "0 \<le> off \<Longrightarrow> 0 < lim \<Longrightarrow> slice off (off + lim) xs = take (nat lim) (drop (nat off) xs)"
  by (auto simp: slice_def Let_def min_def max_def nat_diff_distrib nat_add_distrib)

section \<open>Facts about the registry\<close>

lemma sends_append: "sends (xs @ ys) = sends xs @ sends ys"
  by (induction xs rule: sends.induct) auto

lemma stringified_append: "stringified (xs @ ys) = stringified xs @ stringified ys"
  by (induction xs rule: stringified.induct) auto

lemma forEach_send_world:
  "\<exists>new. effects (world_of (forEach_send pf msg cs d)) = effects (world_of d) @ new \<and>
     sends new = map (\<lambda>ws. (ws, msg)) cs \<and> stringified new = [] \<and>
     connections (world_of (forEach_send pf msg cs d)) =
       filter (\<lambda>c. \<not> (c \<in> set cs \<and> send pf c msg \<noteq> None)) (connections (world_of d)) \<and>
     store (world_of (forEach_send pf msg cs d)) = store (world_of d)"
proof (induction cs arbitrary: d)
  case Nil
  then show ?case by simp
next
  case (Cons ws cs)
  show ?case
  proof (cases "send pf ws msg")
    case None
    let ?d = "d\<lparr>world_of := emit [Send ws msg] (world_of d), successCount := successCount d + 1\<rparr>"
    from Cons.IH [of ?d] obtain new where
      n: "effects (world_of (forEach_send pf msg cs ?d)) = effects (world_of ?d) @ new"
        "sends new = map (\<lambda>ws. (ws, msg)) cs" "stringified new = []"
        "connections (world_of (forEach_send pf msg cs ?d)) =
           filter (\<lambda>c. \<not> (c \<in> set cs \<and> send pf c msg \<noteq> None)) (connections (world_of ?d))"
        "store (world_of (forEach_send pf msg cs ?d)) = store (world_of ?d)"
      by blast
    have "effects (world_of (forEach_send pf msg (ws # cs) d)) = effects (world_of d) @ (Send ws msg # new)"
      using n(1) None by (simp add: emit_def)
    moreover have "sends (Send ws msg # new) = map (\<lambda>ws. (ws, msg)) (ws # cs)"
      using n(2) by simp
    moreover have "stringified (Send ws msg # new) = []"
      using n(3) by simp
    moreover have "connections (world_of (forEach_send pf msg (ws # cs) d)) =
       filter (\<lambda>c. \<not> (c \<in> set (ws # cs) \<and> send pf c msg \<noteq> None)) (connections (world_of d))"
      using n(4) None by (auto simp: emit_def intro: filter_cong)
    moreover have "store (world_of (forEach_send pf msg (ws # cs) d)) = store (world_of d)"
      using n(5) None by (simp add: emit_def)
    ultimately show ?thesis by blast
  next
    case (Some err)
    let ?d = "d\<lparr>world_of :=
                (emit [Send ws msg,
                       ConsoleError ''Failed to send message to WebSocket connection:'' err]
                   (world_of d))
                \<lparr>connections := removeAll ws (connections (world_of d))\<rparr>,
              failureCount := failureCount d + 1\<rparr>"
    from Cons.IH [of ?d] obtain new where
      n: "effects (world_of (forEach_send pf msg cs ?d)) = effects (world_of ?d) @ new"
        "sends new = map (\<lambda>ws. (ws, msg)) cs" "stringified new = []"
        "connections (world_of (forEach_send pf msg cs ?d)) =
           filter (\<lambda>c. \<not> (c \<in> set cs \<and> send pf c msg \<noteq> None)) (connections (world_of ?d))"
        "store (world_of (forEach_send pf msg cs ?d)) = store (world_of ?d)"
      by blast
    let ?new = "Send ws msg # ConsoleError ''Failed to send message to WebSocket connection:'' err # new"
    have "effects (world_of (forEach_send pf msg (ws # cs) d)) = effects (world_of d) @ ?new"
      using n(1) Some by (simp add: emit_def)
    moreover have "sends ?new = map (\<lambda>ws. (ws, msg)) (ws # cs)"
      using n(2) by simp
    moreover have "stringified ?new = []"
      using n(3) by simp
    moreover have "connections (world_of (forEach_send pf msg (ws # cs) d)) =
       filter (\<lambda>c. \<not> (c \<in> set (ws # cs) \<and> send pf c msg \<noteq> None)) (connections (world_of d))"
      using n(4) Some by (auto simp: emit_def removeAll_filter_not_eq intro: filter_cong)
    moreover have "store (world_of (forEach_send pf msg (ws # cs) d)) = store (world_of d)"
      using n(5) Some by (simp add: emit_def)
    ultimately show ?thesis by blast
  qed
qed

lemma broadcast_world:
  "\<exists>new. effects (broadcast pf ev w) = effects w @ new \<and>
     stringified new = [ev] \<and>
     sends new = map (\<lambda>ws. (ws, stringify pf ev)) (connections w) \<and>
     connections (broadcast pf ev w) =
       filter (\<lambda>ws. send pf ws (stringify pf ev) = None) (connections w) \<and>
     store (broadcast pf ev w) = store w"
proof (cases "connections w = []")
  case True
  then show ?thesis
    by (simp add: broadcast_def emit_def Let_def)
next
  case False
  let ?d = "\<lparr>world_of = emit [Stringify ev] w, successCount = 0, failureCount = 0\<rparr> :: 'a delivery"
  from forEach_send_world [of pf "stringify pf ev" "connections w" ?d] obtain new where
    n: "effects (world_of (forEach_send pf (stringify pf ev) (connections w) ?d)) = effects (world_of ?d) @ new"
      "sends new = map (\<lambda>ws. (ws, stringify pf ev)) (connections w)" "stringified new = []"
      "connections (world_of (forEach_send pf (stringify pf ev) (connections w) ?d)) =
         filter (\<lambda>c. \<not> (c \<in> set (connections w) \<and> send pf c (stringify pf ev) \<noteq> None)) (connections (world_of ?d))"
      "store (world_of (forEach_send pf (stringify pf ev) (connections w) ?d)) = store (world_of ?d)"
    by blast
  let ?d' = "forEach_send pf (stringify pf ev) (connections w) ?d"
  let ?log = "ConsoleLog (''Broadcasted '' @ show_type (type' ev) @ '' event to '' @
                       show_nat (successCount ?d') @ '' connections ('' @
                       show_nat (failureCount ?d') @ '' failures)'')"
  let ?new = "Stringify ev # new @ [?log]"
  have b: "broadcast pf ev w = emit [?log] (world_of ?d')"
    using False by (simp add: broadcast_def Let_def emit_def)
  have "effects (broadcast pf ev w) = effects w @ ?new"
    unfolding b using n(1) by (simp add: emit_def)
  moreover have "stringified ?new = [ev]"
    using n(3) by (simp add: stringified_append)
  moreover have "sends ?new = map (\<lambda>ws. (ws, stringify pf ev)) (connections w)"
    using n(2) by (simp add: sends_append)
  moreover have "connections (broadcast pf ev w) =
       filter (\<lambda>ws. send pf ws (stringify pf ev) = None) (connections w)"
    unfolding b using n(4) by (auto simp: emit_def intro: filter_cong)
  moreover have "store (broadcast pf ev w) = store w"
    unfolding b using n(5) by (simp add: emit_def)
  ultimately show ?thesis by blast
qed

lemma store_broadcast [simp]: "store (broadcast pf ev w) = store w"
  using broadcast_world [of pf ev w] by blast

lemma emit_simps [simp]:
  "store (emit es w) = store w" "connections (emit es w) = connections w"
  "effects (emit es w) = effects w @ es"
  by (simp_all add: emit_def)

section \<open>Facts about the model and the repository\<close>

lemma find_findIndex:
  "find P xs = Some x \<Longrightarrow> \<exists>k<length xs. findIndex P xs = Some k \<and> xs ! k = x"
proof (induction xs)
  case Nil
  then show ?case by simp
next
  case (Cons y ys)
  then show ?case by (cases "P y") auto
qed

lemma find_list_update:
  "findIndex P xs = Some k \<Longrightarrow> P m \<Longrightarrow> find P (xs[k := m]) = Some m"
proof (induction xs arbitrary: k)
  case Nil
  then show ?case by simp
next
  case (Cons y ys)
  then show ?case by (cases "P y") auto
qed

lemma UserRepository_simps:
  "r_findAll (UserRepository a) = (\<lambda>us. Inr (findAll us))"
  "r_findById (UserRepository a) = (\<lambda>i us. Inr (findById i us))"
  "r_findByEmail (UserRepository a) = (\<lambda>e us. Inr (findByEmail e us))"
  "r_create (UserRepository a) = create (uuid a) (now1 a) (now2 a) (now3 a)"
  "r_update (UserRepository a) = update (now1 a) (now2 a)"
  "r_delete (UserRepository a) = (\<lambda>i us. (Inr (fst (delete (now1 a) i us)), snd (delete (now1 a) i us)))"
  "r_count (UserRepository a) = (\<lambda>us. Inr (count us))"
  "r_findPaginated (UserRepository a) = (\<lambda>offset limit us. Inr (findPaginated offset limit us))"
  by (simp_all add: UserRepository_def)

text \<open>
  The test of \<open>isValidEmail\<close> is the match of the regular expression: the string is a
  non-empty run of the class, an \<^verbatim>\<open>@\<close>, a non-empty run, a dot and a non-empty run.
\<close>

lemma isValidEmail_iff:
  "isValidEmail e =
     (\<exists>l m r. e = l @ ''@'' @ m @ ''.'' @ r \<and> l \<noteq> [] \<and> m \<noteq> [] \<and> r \<noteq> [] \<and>
        list_all email_char l \<and> list_all email_char m \<and> list_all email_char r)"
proof
  assume v: "isValidEmail e"
  let ?l = "takeWhile email_char e"
  from v obtain d where d: "dropWhile email_char e = CHR ''@'' # d" and l: "?l \<noteq> []"
    and ad: "list_all email_char d" and dot: "CHR ''.'' \<in> set (butlast (tl d))"
    by (auto simp: isValidEmail_def split: list.splits)
  have e: "e = ?l @ CHR ''@'' # d"
    using takeWhile_dropWhile_id [of email_char e] d by simp
  from dot obtain p q where pq: "butlast (tl d) = p @ CHR ''.'' # q"
    by (auto dest: split_list)
  then have tn: "tl d \<noteq> []" by auto
  then have dn: "d \<noteq> []" by auto
  have t: "tl d = p @ CHR ''.'' # q @ [last (tl d)]"
    using append_butlast_last_id [OF tn] pq by simp
  have dd: "d = (hd d # p) @ ''.'' @ (q @ [last (tl d)])"
    using dn t by (cases d) auto
  have "list_all email_char (hd d # p)" "list_all email_char (q @ [last (tl d)])"
    using ad by (subst (asm) dd, simp)+
  moreover have "list_all email_char ?l"
    by (simp add: list_all_iff) (meson set_takeWhileD)
  moreover have "e = ?l @ ''@'' @ (hd d # p) @ ''.'' @ (q @ [last (tl d)])"
    using e dd by simp
  ultimately show "\<exists>l m r. e = l @ ''@'' @ m @ ''.'' @ r \<and> l \<noteq> [] \<and> m \<noteq> [] \<and> r \<noteq> [] \<and>
        list_all email_char l \<and> list_all email_char m \<and> list_all email_char r"
    using l by blast
next
  assume "\<exists>l m r. e = l @ ''@'' @ m @ ''.'' @ r \<and> l \<noteq> [] \<and> m \<noteq> [] \<and> r \<noteq> [] \<and>
        list_all email_char l \<and> list_all email_char m \<and> list_all email_char r"
  then obtain l m r where e: "e = l @ ''@'' @ m @ ''.'' @ r" and n: "l \<noteq> []" "m \<noteq> []" "r \<noteq> []"
    and a: "list_all email_char l" "list_all email_char m" "list_all email_char r"
    by blast
  have na: "\<not> email_char CHR ''@''" by (simp add: email_char_def)
  have dc: "email_char CHR ''.''" by (simp add: email_char_def is_space_def)
  have tw: "takeWhile email_char e = l"
    using a(1) na by (simp add: e takeWhile_append2 list_all_iff)
  have dw: "dropWhile email_char e = CHR ''@'' # m @ ''.'' @ r"
    using a(1) na by (simp add: e dropWhile_append2 list_all_iff)
  have "butlast (tl (m @ ''.'' @ r)) = tl m @ CHR ''.'' # butlast r"
    using n by (cases m) (auto simp: butlast_append)
  then have "CHR ''.'' \<in> set (butlast (tl (m @ ''.'' @ r)))" by simp
  moreover have "list_all email_char (m @ ''.'' @ r)"
    using a dc by simp
  ultimately show "isValidEmail e"
    using n tw dw by (simp add: isValidEmail_def)
qed

lemma isValidName_nonempty: "isValidName n \<Longrightarrow> n \<noteq> []"
  by (auto simp: isValidName_def trim_def)

lemma isValidEmail_nonempty: "isValidEmail e \<Longrightarrow> e \<noteq> []"
  by (auto simp: isValidEmail_def)

lemma validateCreateDto_Nil:
  "(validateCreateDto dto = []) = (isValidName (c_name dto) \<and> isValidEmail (c_email dto))"
  by (auto simp: validateCreateDto_def dest: isValidName_nonempty isValidEmail_nonempty)

lemma validateUpdateDto_Nil:
  "(validateUpdateDto dto = []) =
     ((\<forall>n. u_name dto = Some n \<longrightarrow> isValidName n) \<and>
      (\<forall>e. u_email dto = Some e \<longrightarrow> isValidEmail e))"
  by (auto simp: validateUpdateDto_def split: option.splits)

lemma delete_present:
  assumes "findById i us = Some u"
  shows "\<exists>k<length us. us ! k = u \<and>
           delete t i us = (Some (u\<lparr>updatedAt := t\<rparr>), take k us @ drop (Suc k) us)"
proof -
  from find_findIndex [OF assms [unfolded findById_def]] obtain k where
    k: "k < length us" "findIndex (\<lambda>u. id' u = i) us = Some k" "us ! k = u"
    by blast
  then show ?thesis
    by (auto simp: delete_def Let_def splice1_def)
qed

lemma email_owner:
  assumes "distinct (map email us)" "findByEmail e us = Some x" "y \<in> set us" "email y = e"
  shows "x = y"
proof -
  have "x \<in> set us" "email x = e"
    using assms(2) by (auto simp: findByEmail_def find_Some_iff)
  with assms(1,3,4) show ?thesis
    by (auto simp: distinct_map inj_on_def)
qed

section \<open>Facts about the service on this repository\<close>

lemma createUser_cases:
  "createUser (UserRepository a) pf dto w =
     (if validateCreateDto dto \<noteq> [] then (failure (join '', '' (validateCreateDto dto)), w)
      else if findByEmail (c_email dto) (store w) \<noteq> None
      then (failure ''User with this email already exists'',
            emit [ConsoleError ''Error creating user:'' (Error ''User with this email already exists'')] w)
      else (success ((UserModel_create (uuid a) (now1 a) (now2 a) dto)\<lparr>updatedAt := now3 a\<rparr>)
              ''User created successfully'',
            broadcast pf
              \<lparr>type' = created,
               user = (UserModel_create (uuid a) (now1 a) (now2 a) dto)\<lparr>updatedAt := now3 a\<rparr>\<rparr>
              (w\<lparr>store := store w @ [UserModel_create (uuid a) (now1 a) (now2 a) dto]\<rparr>)))"
  by (auto simp: createUser_def UserRepository_simps create_def Let_def catch_createUser_def
      broadcastUserEvent_def)

lemma updateUser_success:
  assumes "error (fst (updateUser (UserRepository a) pf i dto w)) = None"
  shows "trim i \<noteq> [] \<and> validateUpdateDto dto = [] \<and>
         (\<exists>k<length (store w). findIndex (\<lambda>u. id' u = i) (store w) = Some k \<and>
            updateUser (UserRepository a) pf i dto w =
              (success ((UserModel_update (now1 a) (store w ! k) dto)\<lparr>updatedAt := now2 a\<rparr>)
                 ''User updated successfully'',
               broadcast pf
                 \<lparr>type' = updated,
                  user = (UserModel_update (now1 a) (store w ! k) dto)\<lparr>updatedAt := now2 a\<rparr>\<rparr>
                 (w\<lparr>store := (store w)[k := UserModel_update (now1 a) (store w ! k) dto]\<rparr>)))"
proof -
  have nb: "trim i \<noteq> []"
    using assms by (auto simp: updateUser_def failure_def)
  have v: "validateUpdateDto dto = []"
    using assms nb by (auto simp: updateUser_def failure_def Let_def split: if_splits)
  obtain u where u: "findById i (store w) = Some u"
    using assms nb v
    by (cases "findById i (store w)")
      (auto simp: updateUser_def failure_def UserRepository_simps)
  from find_findIndex [OF u [unfolded findById_def]] obtain k where
    k: "k < length (store w)" "findIndex (\<lambda>u. id' u = i) (store w) = Some k"
    by blast
  have "fst (update (now1 a) (now2 a) i dto (store w)) \<noteq> Inl (Error ''User with this email already exists'')"
  proof
    assume c: "fst (update (now1 a) (now2 a) i dto (store w)) = Inl (Error ''User with this email already exists'')"
    then obtain s' where "update (now1 a) (now2 a) i dto (store w) = (Inl (Error ''User with this email already exists''), s')"
      by (cases "update (now1 a) (now2 a) i dto (store w)") auto
    with assms nb v u show False
      by (simp add: updateUser_def UserRepository_simps catch_updateUser_def failure_def)
  qed
  with k have "update (now1 a) (now2 a) i dto (store w) =
      (Inr (Some ((UserModel_update (now1 a) (store w ! k) dto)\<lparr>updatedAt := now2 a\<rparr>)),
       (store w)[k := UserModel_update (now1 a) (store w ! k) dto])"
    by (auto simp: update_def Let_def split: if_splits)
  with nb v u k show ?thesis
    by (simp add: updateUser_def UserRepository_simps broadcastUserEvent_def)
qed

lemma updateUser_cases:
  "error (fst (updateUser (UserRepository a) pf i dto w)) \<noteq> None \<Longrightarrow>
   store (snd (updateUser (UserRepository a) pf i dto w)) = store w"
proof -
  assume e: "error (fst (updateUser (UserRepository a) pf i dto w)) \<noteq> None"
  show ?thesis
  proof (cases "findIndex (\<lambda>u. id' u = i) (store w)")
    case None
    then have "findById i (store w) = None"
      by (simp add: findById_def find_exists_findIndex)
    then show ?thesis
      by (simp add: updateUser_def UserRepository_simps Let_def)
  next
    case (Some k)
    then obtain u where "findById i (store w) = Some u"
      using findIndex_find [OF Some] by (auto simp: findById_def)
    with Some e show ?thesis
      by (auto simp: updateUser_def UserRepository_simps Let_def update_def catch_updateUser_def
          success_def broadcastUserEvent_def split: if_splits)
  qed
qed

lemma deleteUser_present:
  assumes "findById i (store w) = Some u" and "trim i \<noteq> []"
  shows "deleteUser (UserRepository a) pf i w =
           (success (u\<lparr>updatedAt := now1 a\<rparr>) ''User deleted successfully'',
            broadcast pf \<lparr>type' = deleted, user = u\<lparr>updatedAt := now1 a\<rparr>\<rparr>
              (w\<lparr>store := snd (delete (now1 a) i (store w))\<rparr>))"
proof -
  from delete_present [OF assms(1), of "now1 a"] obtain us' where
    "delete (now1 a) i (store w) = (Some (u\<lparr>updatedAt := now1 a\<rparr>), us')"
    by blast
  with assms show ?thesis
    by (simp add: deleteUser_def UserRepository_simps broadcastUserEvent_def)
qed

lemma deleteUser_store:
  "store (snd (deleteUser (UserRepository a) pf i w)) = store w \<or>
   (\<exists>k<length (store w).
      store (snd (deleteUser (UserRepository a) pf i w)) = take k (store w) @ drop (Suc k) (store w))"
proof (cases "trim i \<noteq> [] \<and> findById i (store w) \<noteq> None")
  case True
  then obtain u where u: "findById i (store w) = Some u" and nb: "trim i \<noteq> []"
    by auto
  from delete_present [OF u, of "now1 a"] show ?thesis
    by (auto simp: deleteUser_present [OF u nb])
next
  case False
  then show ?thesis
    by (auto simp: deleteUser_def UserRepository_simps)
qed

section \<open>The invariant of the running process\<close>

lemma store_ok_seed: "store_ok (seed now)"
  by (simp add: store_ok_def seed_def isValidEmail_def email_char_def is_space_def trim_def)

lemma store_ok_append:
  assumes "store_ok us" "id' n \<notin> id' ` set us" "email n \<notin> email ` set us"
    "isValidEmail (email n)" "trim (id' n) \<noteq> []"
  shows "store_ok (us @ [n])"
  using assms by (auto simp: store_ok_def)

lemma store_ok_remove:
  assumes "store_ok us"
  shows "store_ok (take k us @ drop (Suc k) us)"
proof -
  have d: "distinct xs \<Longrightarrow> distinct (take k xs @ drop (Suc k) xs)" for xs :: "string list"
    using set_take_disj_set_drop_if_distinct [of xs k "Suc k"] by simp
  have "distinct (map id' (take k us @ drop (Suc k) us))"
    using assms d [of "map id' us"] by (simp add: store_ok_def take_map drop_map)
  moreover have "distinct (map email (take k us @ drop (Suc k) us))"
    using assms d [of "map email us"] by (simp add: store_ok_def take_map drop_map)
  moreover have "list_all (\<lambda>u. isValidEmail (email u) \<and> trim (id' u) \<noteq> []) (take k us @ drop (Suc k) us)"
    using assms by (auto simp: store_ok_def list_all_iff dest: in_set_takeD in_set_dropD)
  ultimately show ?thesis by (simp add: store_ok_def)
qed

lemma store_ok_update:
  assumes ok: "store_ok us" and k: "findIndex (\<lambda>u. id' u = i) us = Some k"
    and v: "validateUpdateDto dto = []"
    and nc: "\<not> (truthy (u_email dto) \<and>
              (case findByEmail (the (u_email dto)) us of
                 Some existingUser \<Rightarrow> id' existingUser \<noteq> i | None \<Rightarrow> False))"
  shows "store_ok (us[k := UserModel_update t (us ! k) dto])"
proof -
  let ?m = "UserModel_update t (us ! k) dto"
  from findIndex_Some [OF k] have kl: "k < length us" and idk: "id' (us ! k) = i" by simp_all
  have ids: "map id' (us[k := ?m]) = map id' us"
    using kl by (simp add: map_update UserModel_update_def list_update_same_conv)
  have em: "distinct (map email (us[k := ?m])) \<and> isValidEmail (email ?m)"
  proof (cases "u_email dto")
    case None
    then have "email ?m = email (us ! k)" by (simp add: UserModel_update_def)
    then have "map email (us[k := ?m]) = map email us"
      using kl by (simp add: map_update list_update_same_conv)
    moreover have "isValidEmail (email (us ! k))"
      using ok kl by (auto simp: store_ok_def list_all_iff)
    ultimately show ?thesis using ok \<open>email ?m = email (us ! k)\<close> by (simp add: store_ok_def)
  next
    case (Some e)
    then have ve: "isValidEmail e" using v by (simp add: validateUpdateDto_Nil)
    then have tr: "truthy (u_email dto)"
      using Some by (auto simp: truthy_def dest: isValidEmail_nonempty)
    have me: "email ?m = e" using Some by (simp add: UserModel_update_def)
    show ?thesis
    proof (cases "findByEmail e us")
      case None
      then have "e \<notin> set (map email us)"
        by (auto simp: findByEmail_def find_None_iff)
      then have "distinct ((map email us)[k := e])"
        using ok by (intro distinct_list_update) (auto simp: store_ok_def)
      then show ?thesis using me ve by (simp add: map_update)
    next
      case (Some x)
      with nc tr \<open>u_email dto = Some e\<close> have "id' x = i" by simp
      moreover have "x \<in> set us" "email x = e"
        using Some by (auto simp: findByEmail_def find_Some_iff)
      ultimately have "x = us ! k"
        using ok kl idk by (auto simp: store_ok_def distinct_map inj_on_def)
      then have "email (us ! k) = e" using \<open>email x = e\<close> by simp
      then have "map email (us[k := ?m]) = map email us"
        using kl me by (simp add: map_update list_update_same_conv)
      then show ?thesis using ok me ve by (simp add: store_ok_def)
    qed
  qed
  have "id' ?m = i" using idk by (simp add: UserModel_update_def)
  moreover have "trim i \<noteq> []"
    using ok kl idk by (auto simp: store_ok_def list_all_iff)
  ultimately have "list_all (\<lambda>u. isValidEmail (email u) \<and> trim (id' u) \<noteq> []) (us[k := ?m])"
    using ok em by (auto simp: store_ok_def list_all_iff dest!: set_update_subset_insert [THEN subsetD])
  with ids em ok show ?thesis by (simp add: store_ok_def)
qed

lemma store_ok_createUser:
  assumes "store_ok (store w)" "uuid a \<notin> id' ` set (store w)" "trim (uuid a) \<noteq> []"
  shows "store_ok (store (snd (createUser (UserRepository a) pf dto w)))"
proof (cases "validateCreateDto dto = [] \<and> findByEmail (c_email dto) (store w) = None")
  case True
  then have "c_email dto \<notin> email ` set (store w)" "isValidEmail (c_email dto)"
    by (auto simp: findByEmail_def find_None_iff validateCreateDto_Nil)
  with assms True show ?thesis
    by (auto simp: createUser_cases UserModel_create_def intro!: store_ok_append)
next
  case False
  with assms(1) show ?thesis
    by (auto simp: createUser_cases)
qed

lemma store_ok_updateUser:
  assumes "store_ok (store w)"
  shows "store_ok (store (snd (updateUser (UserRepository a) pf i dto w)))"
proof (cases "error (fst (updateUser (UserRepository a) pf i dto w)) = None")
  case True
  from updateUser_success [OF True] obtain k where
    v: "validateUpdateDto dto = []" and
    k: "findIndex (\<lambda>u. id' u = i) (store w) = Some k" and
    r: "updateUser (UserRepository a) pf i dto w =
              (success ((UserModel_update (now1 a) (store w ! k) dto)\<lparr>updatedAt := now2 a\<rparr>)
                 ''User updated successfully'',
               broadcast pf
                 \<lparr>type' = updated,
                  user = (UserModel_update (now1 a) (store w ! k) dto)\<lparr>updatedAt := now2 a\<rparr>\<rparr>
                 (w\<lparr>store := (store w)[k := UserModel_update (now1 a) (store w ! k) dto]\<rparr>))"
    by blast
  have nb: "trim i \<noteq> []" using updateUser_success [OF True] by simp
  obtain u where u: "findById i (store w) = Some u"
    using findIndex_find [OF k] by (auto simp: findById_def)
  have nc: "\<not> (truthy (u_email dto) \<and>
              (case findByEmail (the (u_email dto)) (store w) of
                 Some existingUser \<Rightarrow> id' existingUser \<noteq> i | None \<Rightarrow> False))"
  proof
    assume "truthy (u_email dto) \<and>
              (case findByEmail (the (u_email dto)) (store w) of
                 Some existingUser \<Rightarrow> id' existingUser \<noteq> i | None \<Rightarrow> False)"
    with k have "update (now1 a) (now2 a) i dto (store w) =
        (Inl (Error ''User with this email already exists''), store w)"
      by (simp add: update_def)
    with nb v u have "error (fst (updateUser (UserRepository a) pf i dto w)) \<noteq> None"
      by (simp add: updateUser_def UserRepository_simps catch_updateUser_def failure_def)
    with True show False by simp
  qed
  from store_ok_update [OF assms k v nc] show ?thesis
    by (simp add: r)
next
  case False
  with assms show ?thesis by (simp add: updateUser_cases)
qed

lemma store_ok_deleteUser:
  assumes "store_ok (store w)"
  shows "store_ok (store (snd (deleteUser (UserRepository a) pf i w)))"
  using deleteUser_store [of a pf i w] assms by (auto intro: store_ok_remove)

lemma reachable_store_ok: "reachable w \<Longrightarrow> store_ok (store w)"
proof (induction rule: reachable.induct)
  case (boot now)
  then show ?case by (simp add: store_ok_seed)
next
  case (by_createUser w a pf createDto)
  then show ?case by (simp add: store_ok_createUser)
next
  case (by_updateUser w a pf i updateDto)
  then show ?case by (simp add: store_ok_updateUser)
next
  case (by_deleteUser w a pf i)
  then show ?case by (simp add: store_ok_deleteUser)
next
  case (by_open w ws)
  then show ?case by (simp add: addConnection_def Let_def)
next
  case (by_close w ws)
  then show ?case by (simp add: removeConnection_def Let_def)
next
  case (by_other w cs es)
  then show ?case by simp
qed

text \<open>
  In particular, no two live records of a state the process reaches share an email.
\<close>

lemma reachable_emails_distinct: "reachable w \<Longrightarrow> distinct (map email (store w))"
  using reachable_store_ok [of w] by (simp add: store_ok_def)

section \<open>Evaluating the definitions on concrete states\<close>

lemmas eval_defs =
  updateUser_def createUser_def deleteUser_def UserRepository_simps update_def create_def delete_def
  findById_def findByEmail_def truthy_def validateUpdateDto_def validateCreateDto_def
  isValidName_def isValidEmail_def email_char_def trim_def is_space_def
  UserModel_update_def UserModel_create_def
  broadcastUserEvent_def broadcast_def emit_def success_def failure_def Let_def splice1_def
  catch_createUser_def catch_updateUser_def catch_deleteUser_def show_nat_digit digit_def
  quietPlatform_def

section \<open>The queries of the repository agree\<close>

text \<open>
  C10. For every array of users and every id, \<^verbatim>\<open>exists(id)\<close> is true exactly when
  \<^verbatim>\<open>findById(id)\<close> returns a record, and \<^verbatim>\<open>count()\<close> is the length of the array that
  \<^verbatim>\<open>findAll()\<close> returns.
\<close>

theorem exists_findById_count_findAll:
  "exists i us = (findById i us \<noteq> None) \<and> count us = length (findAll us)"
  by (auto simp: exists_def findById_def count_def findAll_def list_ex_iff find_None_iff)

section \<open>Pagination\<close>

text \<open>
  C7. For every state of the repository and all integers \<open>0 \<le> off\<close> and
  \<open>0 < lim \<le> 100\<close>, \<^verbatim>\<open>getUsersPaginated(off, lim)\<close> succeeds; its \<open>users\<close> are the
  \<open>lim\<close> elements of the array from index \<open>off\<close> (fewer where the array ends), in the
  array's order, so their number is \<open>min lim (max 0 (total - off))\<close>; and its \<open>total\<close> is
  \<^verbatim>\<open>count()\<close>, whatever \<open>off\<close> and \<open>lim\<close> are.
\<close>

theorem getUsersPaginated_slice_total:
  assumes "0 \<le> off" "0 < lim" "lim \<le> 100"
  shows "getUsersPaginated (UserRepository a) off lim w =
           (success \<lparr>users = take (nat lim) (drop (nat off) (store w)),
                     total = count (store w), offset = off, limit = lim\<rparr>
              (''Retrieved '' @ show_nat (length (take (nat lim) (drop (nat off) (store w)))) @
               '' of '' @ show_nat (count (store w)) @ '' users''), w)
         \<and> int (length (take (nat lim) (drop (nat off) (store w)))) =
             min lim (max 0 (int (count (store w)) - off))"
  using assms
  by (auto simp: getUsersPaginated_def UserRepository_def findPaginated_def slice_take_drop count_def)

theorem getUsersPaginated_slice_total_witness:
  "(0::int) \<le> 1 \<and> (0::int) < 2 \<and> (2::int) \<le> 100 \<and>
   fst (getUsersPaginated (UserRepository \<lparr>uuid = ''u'', now1 = 7, now2 = 8, now3 = 9\<rparr>) 1 2
      \<lparr>store =
         [\<lparr>id' = ''1'', name = ''John Doe'', email = ''john@example.com'',
            createdAt = 0, updatedAt = 0\<rparr>,
          \<lparr>id' = ''2'', name = ''Jane Smith'', email = ''jane@example.com'',
            createdAt = 0, updatedAt = 0\<rparr>],
        connections = [], effects = []\<rparr>) =
     success
       \<lparr>users = [\<lparr>id' = ''2'', name = ''Jane Smith'', email = ''jane@example.com'',
                   createdAt = 0, updatedAt = 0\<rparr>],
        total = 2, offset = 1, limit = 2\<rparr>
       ''Retrieved 1 of 2 users''"
proof -
  have h: "(0::int) \<le> 1" "(0::int) < 2" "(2::int) \<le> 100" by simp_all
  from getUsersPaginated_slice_total
    [OF h, where a = "\<lparr>uuid = ''u'', now1 = 7, now2 = 8, now3 = 9\<rparr>"
      and w = "\<lparr>store =
         [\<lparr>id' = ''1'', name = ''John Doe'', email = ''john@example.com'',
            createdAt = 0, updatedAt = 0\<rparr>,
          \<lparr>id' = ''2'', name = ''Jane Smith'', email = ''jane@example.com'',
            createdAt = 0, updatedAt = 0\<rparr>],
        connections = [], effects = []\<rparr>"]
  show ?thesis
    by (simp add: count_def show_nat_digit digit_def numeral_2_eq_2)
qed

section \<open>What a mutation of the repository leaves alone\<close>

text \<open>
  C9. Each mutating operation of the repository changes its target and nothing else.
  \<^verbatim>\<open>create\<close> either throws and leaves the array as it is, or appends the new record at
  the end. \<^verbatim>\<open>update\<close> either leaves the array as it is (unknown id, or conflict), or
  replaces the record at the position \<open>k\<close> of the target by the merged one: the length
  and every other position are as before. \<^verbatim>\<open>delete\<close> either leaves the array as it is
  (unknown id), or removes the element at the position \<open>k\<close> of the target: what stood
  before it and what stood after it remain, in their order.
\<close>

theorem store_mutations_frame:
  "(case create uid t1 t2 t3 cdto us of
      (Inl e, us') \<Rightarrow> us' = us
    | (Inr u, us') \<Rightarrow> us' = us @ [UserModel_create uid t1 t2 cdto]) \<and>
   (case update t1 t2 i udto us of
      (Inl e, us') \<Rightarrow> us' = us
    | (Inr None, us') \<Rightarrow> us' = us
    | (Inr (Some u), us') \<Rightarrow>
        (\<exists>k<length us. id' (us ! k) = i \<and> us' = us[k := UserModel_update t1 (us ! k) udto] \<and>
           length us' = length us \<and> (\<forall>j<length us. j \<noteq> k \<longrightarrow> us' ! j = us ! j))) \<and>
   (case delete t1 i us of
      (None, us') \<Rightarrow> us' = us
    | (Some u, us') \<Rightarrow>
        (\<exists>k<length us. id' (us ! k) = i \<and> us = take k us @ [us ! k] @ drop (Suc k) us \<and>
           us' = take k us @ drop (Suc k) us))"
proof (intro conjI)
  show "case create uid t1 t2 t3 cdto us of
      (Inl e, us') \<Rightarrow> us' = us
    | (Inr u, us') \<Rightarrow> us' = us @ [UserModel_create uid t1 t2 cdto]"
    by (simp add: create_def Let_def split: option.splits)
next
  show "case update t1 t2 i udto us of
      (Inl e, us') \<Rightarrow> us' = us
    | (Inr None, us') \<Rightarrow> us' = us
    | (Inr (Some u), us') \<Rightarrow>
        (\<exists>k<length us. id' (us ! k) = i \<and> us' = us[k := UserModel_update t1 (us ! k) udto] \<and>
           length us' = length us \<and> (\<forall>j<length us. j \<noteq> k \<longrightarrow> us' ! j = us ! j))"
  proof (cases "findIndex (\<lambda>u. id' u = i) us")
    case None
    then show ?thesis by (simp add: update_def)
  next
    case (Some k)
    from findIndex_Some [OF Some] have "k < length us" "id' (us ! k) = i" by simp_all
    with Some show ?thesis
      by (auto simp: update_def Let_def)
  qed
next
  show "case delete t1 i us of
      (None, us') \<Rightarrow> us' = us
    | (Some u, us') \<Rightarrow>
        (\<exists>k<length us. id' (us ! k) = i \<and> us = take k us @ [us ! k] @ drop (Suc k) us \<and>
           us' = take k us @ drop (Suc k) us)"
  proof (cases "findIndex (\<lambda>u. id' u = i) us")
    case None
    then show ?thesis by (simp add: delete_def)
  next
    case (Some k)
    from findIndex_Some [OF Some] have "k < length us" "id' (us ! k) = i" by simp_all
    with Some show ?thesis
      by (auto simp: delete_def Let_def splice1_def id_take_nth_drop [symmetric])
  qed
qed

theorem store_mutations_frame_witness:
  "snd (create ''u4'' 5 6 7 \<lparr>c_name = ''Ann Lee'', c_email = ''ann@x.com''\<rparr>
      [\<lparr>id' = ''1'', name = ''John Doe'', email = ''john@example.com'',
         createdAt = 0, updatedAt = 1\<rparr>,
       \<lparr>id' = ''2'', name = ''Jane Smith'', email = ''jane@example.com'',
         createdAt = 2, updatedAt = 3\<rparr>]) =
     [\<lparr>id' = ''1'', name = ''John Doe'', email = ''john@example.com'',
        createdAt = 0, updatedAt = 1\<rparr>,
      \<lparr>id' = ''2'', name = ''Jane Smith'', email = ''jane@example.com'',
        createdAt = 2, updatedAt = 3\<rparr>,
      \<lparr>id' = ''u4'', name = ''Ann Lee'', email = ''ann@x.com'', createdAt = 5, updatedAt = 6\<rparr>] \<and>
   snd (update 5 6 ''1'' \<lparr>u_name = Some ''Johnny'', u_email = None\<rparr>
      [\<lparr>id' = ''1'', name = ''John Doe'', email = ''john@example.com'',
         createdAt = 0, updatedAt = 1\<rparr>,
       \<lparr>id' = ''2'', name = ''Jane Smith'', email = ''jane@example.com'',
         createdAt = 2, updatedAt = 3\<rparr>]) =
     [\<lparr>id' = ''1'', name = ''Johnny'', email = ''john@example.com'',
        createdAt = 0, updatedAt = 5\<rparr>,
      \<lparr>id' = ''2'', name = ''Jane Smith'', email = ''jane@example.com'',
        createdAt = 2, updatedAt = 3\<rparr>] \<and>
   snd (delete 5 ''1''
      [\<lparr>id' = ''1'', name = ''John Doe'', email = ''john@example.com'',
         createdAt = 0, updatedAt = 1\<rparr>,
       \<lparr>id' = ''2'', name = ''Jane Smith'', email = ''jane@example.com'',
         createdAt = 2, updatedAt = 3\<rparr>]) =
     [\<lparr>id' = ''2'', name = ''Jane Smith'', email = ''jane@example.com'',
        createdAt = 2, updatedAt = 3\<rparr>]"
  using store_mutations_frame
    [where uid = "''u4''" and ?t1.0 = 5 and ?t2.0 = 6 and ?t3.0 = 7
      and cdto = "\<lparr>c_name = ''Ann Lee'', c_email = ''ann@x.com''\<rparr>"
      and us = "[\<lparr>id' = ''1'', name = ''John Doe'', email = ''john@example.com'',
          createdAt = 0, updatedAt = 1\<rparr>,
        \<lparr>id' = ''2'', name = ''Jane Smith'', email = ''jane@example.com'',
          createdAt = 2, updatedAt = 3\<rparr>]"
      and i = "''1''" and udto = "\<lparr>u_name = Some ''Johnny'', u_email = None\<rparr>"]
  by (simp add: create_def update_def delete_def findByEmail_def UserModel_create_def
      UserModel_update_def truthy_def splice1_def Let_def)

section \<open>Broadcast\<close>

text \<open>
  C8. For every event and every set of registered connections, \<^verbatim>\<open>broadcast\<close> adds
  effects to those so far, among them one call of \<^verbatim>\<open>JSON.stringify\<close>, on the event, and
  one call of \<^verbatim>\<open>send\<close> for every member of the set, in insertion order, each with the
  serialized event; the set afterwards holds the members whose \<^verbatim>\<open>send\<close> returned, so a
  failed member is gone and the members after it were still sent to; the repository is
  untouched. Within the loop, a member whose \<^verbatim>\<open>send\<close> throws is out of the set before
  the loop goes on to the members after it. On the empty set, \<^verbatim>\<open>broadcast\<close> only serializes and logs one line: it sends
  nothing and returns. \<^verbatim>\<open>broadcastUserEvent\<close> of the service is this \<^verbatim>\<open>broadcast\<close>.
\<close>

theorem broadcast_once_to_all_evicting_failed:
  "(let w' = broadcast pf ev w; new = drop (length (effects w)) (effects w')
    in take (length (effects w)) (effects w') = effects w \<and>
       stringified new = [ev] \<and>
       sends new = map (\<lambda>ws. (ws, stringify pf ev)) (connections w) \<and>
       connections w' = filter (\<lambda>ws. send pf ws (stringify pf ev) = None) (connections w) \<and>
       store w' = store w) \<and>
   broadcast pf ev (w\<lparr>connections := []\<rparr>) =
     emit [Stringify ev, ConsoleLog ''No WebSocket connections to broadcast to'']
       (w\<lparr>connections := []\<rparr>) \<and>
   broadcastUserEvent pf ev w = broadcast pf ev w \<and>
   (send pf c msg \<noteq> None \<longrightarrow>
      (\<exists>d1. forEach_send pf msg (c # rest) d = forEach_send pf msg rest d1 \<and>
         c \<notin> set (connections (world_of d1)) \<and>
         sends (drop (length (effects (world_of d))) (effects (world_of d1))) = [(c, msg)]))"
proof -
  have step: "send pf c msg \<noteq> None \<longrightarrow>
      (\<exists>d1. forEach_send pf msg (c # rest) d = forEach_send pf msg rest d1 \<and>
         c \<notin> set (connections (world_of d1)) \<and>
         sends (drop (length (effects (world_of d))) (effects (world_of d1))) = [(c, msg)])"
  proof
    assume "send pf c msg \<noteq> None"
    then obtain err where err: "send pf c msg = Some err" by auto
    let ?d1 = "d\<lparr>world_of :=
                (emit [Send c msg,
                       ConsoleError ''Failed to send message to WebSocket connection:'' err]
                   (world_of d))
                \<lparr>connections := removeAll c (connections (world_of d))\<rparr>,
              failureCount := failureCount d + 1\<rparr>"
    have "forEach_send pf msg (c # rest) d = forEach_send pf msg rest ?d1"
      using err by simp
    moreover have "c \<notin> set (connections (world_of ?d1))" by simp
    moreover have "sends (drop (length (effects (world_of d))) (effects (world_of ?d1))) = [(c, msg)]"
      by simp
    ultimately show "\<exists>d1. forEach_send pf msg (c # rest) d = forEach_send pf msg rest d1 \<and>
         c \<notin> set (connections (world_of d1)) \<and>
         sends (drop (length (effects (world_of d))) (effects (world_of d1))) = [(c, msg)]"
      by blast
  qed
  from broadcast_world [of pf ev w] obtain new where
    n: "effects (broadcast pf ev w) = effects w @ new" "stringified new = [ev]"
      "sends new = map (\<lambda>ws. (ws, stringify pf ev)) (connections w)"
      "connections (broadcast pf ev w) =
         filter (\<lambda>ws. send pf ws (stringify pf ev) = None) (connections w)"
      "store (broadcast pf ev w) = store w"
    by blast
  have "broadcast pf ev (w\<lparr>connections := []\<rparr>) =
     emit [Stringify ev, ConsoleLog ''No WebSocket connections to broadcast to'']
       (w\<lparr>connections := []\<rparr>)"
    by (simp add: broadcast_def emit_def Let_def)
  with n step show ?thesis
    by (simp add: Let_def broadcastUserEvent_def)
qed

theorem broadcast_once_to_all_evicting_failed_witness:
  "send \<lparr>send = (\<lambda>ws m. if ws = 2 then Some (Error ''socket closed'') else None),
         stringify = (\<lambda>ev. ''{}'')\<rparr> 2 ''{}'' \<noteq> None \<and>
   broadcast \<lparr>send = (\<lambda>ws m. if ws = 2 then Some (Error ''socket closed'') else None),
              stringify = (\<lambda>ev. ''{}'')\<rparr>
     \<lparr>type' = deleted, user = \<lparr>id' = ''1'', name = ''John Doe'', email = ''john@example.com'',
         createdAt = 0, updatedAt = 1\<rparr>\<rparr>
     \<lparr>store = (), connections = [1, 2, 3], effects = []\<rparr> =
   \<lparr>store = (), connections = [1, 3],
    effects =
      [Stringify \<lparr>type' = deleted, user = \<lparr>id' = ''1'', name = ''John Doe'', email = ''john@example.com'',
         createdAt = 0, updatedAt = 1\<rparr>\<rparr>,
       Send 1 ''{}'', Send 2 ''{}'',
       ConsoleError ''Failed to send message to WebSocket connection:'' (Error ''socket closed''),
       Send 3 ''{}'',
       ConsoleLog ''Broadcasted deleted event to 2 connections (1 failures)'']\<rparr>"
  using broadcast_once_to_all_evicting_failed
    [where pf = "\<lparr>send = (\<lambda>ws m. if ws = 2 then Some (Error ''socket closed'') else None),
              stringify = (\<lambda>ev. ''{}'')\<rparr>"
      and ev = "\<lparr>type' = deleted, user = \<lparr>id' = ''1'', name = ''John Doe'',
         email = ''john@example.com'', createdAt = 0, updatedAt = 1\<rparr>\<rparr>"
      and w = "\<lparr>store = (), connections = [1, 2, 3], effects = []\<rparr>"
      and c = 2 and msg = "''{}''" and rest = "[3]"
      and d = "\<lparr>world_of = \<lparr>store = (), connections = [1, 2, 3], effects = []\<rparr>,
                successCount = 1, failureCount = 0\<rparr>"]
  by (simp add: broadcast_def emit_def Let_def show_nat_digit digit_def)

section \<open>Deleting\<close>

text \<open>
  C2, as the code has it. For every state of the repository and every id present in it,
  \<^verbatim>\<open>delete(id)\<close> succeeds: it removes the record at the position of the first record
  with that id and returns that record with \<^verbatim>\<open>id\<close>, \<^verbatim>\<open>name\<close>, \<^verbatim>\<open>email\<close> and
  \<^verbatim>\<open>createdAt\<close> as stored and \<^verbatim>\<open>updatedAt\<close> set to the clock's reading at the call.
  For an id that is not blank, \<^verbatim>\<open>deleteUser\<close> returns that same value and broadcasts
  one \<^verbatim>\<open>deleted\<close> event that carries it.
\<close>

theorem delete_returns_restamped_record:
  assumes "findById i (store w) = Some u"
  shows "(\<exists>k<length (store w). store w ! k = u \<and>
            delete t i (store w) =
              (Some (u\<lparr>updatedAt := t\<rparr>), take k (store w) @ drop (Suc k) (store w))) \<and>
         (trim i \<noteq> [] \<longrightarrow>
            (let ev = \<lparr>type' = deleted, user = u\<lparr>updatedAt := now1 a\<rparr>\<rparr>;
                 r = deleteUser (UserRepository a) pf i w
             in fst r = success (u\<lparr>updatedAt := now1 a\<rparr>) ''User deleted successfully'' \<and>
                snd r = broadcast pf ev (w\<lparr>store := snd (delete (now1 a) i (store w))\<rparr>) \<and>
                stringified (drop (length (effects w)) (effects (snd r))) = [ev]))"
proof (intro conjI impI)
  show "\<exists>k<length (store w). store w ! k = u \<and>
            delete t i (store w) =
              (Some (u\<lparr>updatedAt := t\<rparr>), take k (store w) @ drop (Suc k) (store w))"
    by (rule delete_present [OF assms])
next
  assume nb: "trim i \<noteq> []"
  let ?ev = "\<lparr>type' = deleted, user = u\<lparr>updatedAt := now1 a\<rparr>\<rparr>"
  let ?w1 = "w\<lparr>store := snd (delete (now1 a) i (store w))\<rparr>"
  from broadcast_world [of pf ?ev ?w1] obtain new where
    "effects (broadcast pf ?ev ?w1) = effects ?w1 @ new" "stringified new = [?ev]"
    by blast
  then have "stringified (drop (length (effects w)) (effects (broadcast pf ?ev ?w1))) = [?ev]"
    by simp
  then show "let ev = ?ev; r = deleteUser (UserRepository a) pf i w
             in fst r = success (u\<lparr>updatedAt := now1 a\<rparr>) ''User deleted successfully'' \<and>
                snd r = broadcast pf ev (w\<lparr>store := snd (delete (now1 a) i (store w))\<rparr>) \<and>
                stringified (drop (length (effects w)) (effects (snd r))) = [ev]"
    by (simp add: deleteUser_present [OF assms nb] Let_def)
qed

theorem delete_returns_restamped_record_witness:
  "findById ''1''
     [\<lparr>id' = ''1'', name = ''John Doe'', email = ''john@example.com'',
        createdAt = 1000, updatedAt = 1000\<rparr>,
      \<lparr>id' = ''2'', name = ''Jane Smith'', email = ''jane@example.com'',
        createdAt = 1000, updatedAt = 1000\<rparr>] =
     Some \<lparr>id' = ''1'', name = ''John Doe'', email = ''john@example.com'',
            createdAt = 1000, updatedAt = 1000\<rparr> \<and>
   trim ''1'' \<noteq> [] \<and>
   deleteUser (UserRepository \<lparr>uuid = ''u'', now1 = 2000, now2 = 2001, now3 = 2002\<rparr>)
     quietPlatform ''1''
     \<lparr>store =
        [\<lparr>id' = ''1'', name = ''John Doe'', email = ''john@example.com'',
           createdAt = 1000, updatedAt = 1000\<rparr>,
         \<lparr>id' = ''2'', name = ''Jane Smith'', email = ''jane@example.com'',
           createdAt = 1000, updatedAt = 1000\<rparr>],
      connections = [7], effects = []\<rparr> =
     (\<lparr>data = Some \<lparr>id' = ''1'', name = ''John Doe'', email = ''john@example.com'',
                     createdAt = 1000, updatedAt = 2000\<rparr>,
       error = None, message = Some ''User deleted successfully''\<rparr>,
      \<lparr>store =
         [\<lparr>id' = ''2'', name = ''Jane Smith'', email = ''jane@example.com'',
            createdAt = 1000, updatedAt = 1000\<rparr>],
       connections = [7],
       effects =
         [Stringify \<lparr>type' = deleted,
            user = \<lparr>id' = ''1'', name = ''John Doe'', email = ''john@example.com'',
                     createdAt = 1000, updatedAt = 2000\<rparr>\<rparr>,
          Send 7 ''{}'',
          ConsoleLog ''Broadcasted deleted event to 1 connections (0 failures)'']\<rparr>)"
  using delete_returns_restamped_record
    [where i = "''1''" and t = 2000 and pf = quietPlatform
      and a = "\<lparr>uuid = ''u'', now1 = 2000, now2 = 2001, now3 = 2002\<rparr>"
      and u = "\<lparr>id' = ''1'', name = ''John Doe'', email = ''john@example.com'',
            createdAt = 1000, updatedAt = 1000\<rparr>"
      and w = "\<lparr>store =
        [\<lparr>id' = ''1'', name = ''John Doe'', email = ''john@example.com'',
           createdAt = 1000, updatedAt = 1000\<rparr>,
         \<lparr>id' = ''2'', name = ''Jane Smith'', email = ''jane@example.com'',
           createdAt = 1000, updatedAt = 1000\<rparr>],
      connections = [7], effects = []\<rparr>"]
  by (simp add: eval_defs)

text \<open>
  C2, as the specification states it, fails: the record stored with \<^verbatim>\<open>updatedAt\<close> 1000
  and deleted when the clock reads 2000 is returned with \<^verbatim>\<open>updatedAt\<close> 2000, which is
  not the value \<^verbatim>\<open>findById\<close> returned for it immediately before.
\<close>

theorem delete_snapshot_counterexample:
  "findById ''1''
     [\<lparr>id' = ''1'', name = ''John Doe'', email = ''john@example.com'',
        createdAt = 1000, updatedAt = 1000\<rparr>] =
     Some \<lparr>id' = ''1'', name = ''John Doe'', email = ''john@example.com'',
            createdAt = 1000, updatedAt = 1000\<rparr> \<and>
   fst (delete 2000 ''1''
     [\<lparr>id' = ''1'', name = ''John Doe'', email = ''john@example.com'',
        createdAt = 1000, updatedAt = 1000\<rparr>]) =
     Some \<lparr>id' = ''1'', name = ''John Doe'', email = ''john@example.com'',
            createdAt = 1000, updatedAt = 2000\<rparr> \<and>
   fst (delete 2000 ''1''
     [\<lparr>id' = ''1'', name = ''John Doe'', email = ''john@example.com'',
        createdAt = 1000, updatedAt = 1000\<rparr>]) \<noteq>
     findById ''1''
     [\<lparr>id' = ''1'', name = ''John Doe'', email = ''john@example.com'',
        createdAt = 1000, updatedAt = 1000\<rparr>]"
  by (simp add: findById_def delete_def Let_def)

section \<open>Failures inside the service\<close>

text \<open>
  C3, as the code has it. Whatever repository the service is constructed with and
  whatever that repository throws, every public operation of the service returns an
  outcome: the failure is caught. \<^verbatim>\<open>getAllUsers\<close>, \<^verbatim>\<open>getUserById\<close>, \<^verbatim>\<open>deleteUser\<close>,
  \<^verbatim>\<open>getUsersPaginated\<close> and \<^verbatim>\<open>getUserStats\<close> answer with their fixed message, which
  carries nothing of the failure, and \<^verbatim>\<open>userExistsByEmail\<close> with \<open>False\<close>.
  \<^verbatim>\<open>createUser\<close> and \<^verbatim>\<open>updateUser\<close> answer with the message of the failure when the
  thrown value is an \<^verbatim>\<open>Error\<close>, and with their fixed message otherwise.
\<close>

theorem failures_caught:
  "(r_findAll repo (store w) = Inl e \<longrightarrow>
      fst (getAllUsers repo w) = failure ''Failed to retrieve users'') \<and>
   (trim i \<noteq> [] \<and> r_findById repo i (store w) = Inl e \<longrightarrow>
      fst (getUserById repo i w) = failure ''Failed to retrieve user'') \<and>
   (validateCreateDto cdto = [] \<and> fst (r_create repo cdto (store w)) = Inl e \<longrightarrow>
      fst (createUser repo pf cdto w) =
        failure (case e of Error m \<Rightarrow> m | NonError v \<Rightarrow> ''Failed to create user'')) \<and>
   (trim i \<noteq> [] \<and> validateUpdateDto udto = [] \<and>
    (r_findById repo i (store w) = Inl e \<or>
     (\<exists>x. r_findById repo i (store w) = Inr (Some x)) \<and>
       fst (r_update repo i udto (store w)) = Inl e) \<longrightarrow>
      fst (updateUser repo pf i udto w) =
        failure (case e of Error m \<Rightarrow> m | NonError v \<Rightarrow> ''Failed to update user'')) \<and>
   (trim i \<noteq> [] \<and>
    (r_findById repo i (store w) = Inl e \<or>
     (\<exists>x. r_findById repo i (store w) = Inr (Some x)) \<and>
       fst (r_delete repo i (store w)) = Inl e) \<longrightarrow>
      fst (deleteUser repo pf i w) = failure ''Failed to delete user'') \<and>
   (0 \<le> off \<and> 0 < lim \<and> lim \<le> 100 \<and>
    (r_findPaginated repo off lim (store w) = Inl e \<or>
     (\<exists>us. r_findPaginated repo off lim (store w) = Inr us) \<and> r_count repo (store w) = Inl e) \<longrightarrow>
      fst (getUsersPaginated repo off lim w) = failure ''Failed to retrieve users'') \<and>
   (r_count repo (store w) = Inl e \<longrightarrow>
      fst (getUserStats repo w) = failure ''Failed to retrieve user statistics'') \<and>
   (r_findByEmail repo m (store w) = Inl e \<longrightarrow> fst (userExistsByEmail repo m w) = False)"
proof (intro conjI impI)
  assume "r_findAll repo (store w) = Inl e"
  then show "fst (getAllUsers repo w) = failure ''Failed to retrieve users''"
    by (simp add: getAllUsers_def)
next
  assume "trim i \<noteq> [] \<and> r_findById repo i (store w) = Inl e"
  then show "fst (getUserById repo i w) = failure ''Failed to retrieve user''"
    by (simp add: getUserById_def)
next
  assume "validateCreateDto cdto = [] \<and> fst (r_create repo cdto (store w)) = Inl e"
  then show "fst (createUser repo pf cdto w) =
        failure (case e of Error m \<Rightarrow> m | NonError v \<Rightarrow> ''Failed to create user'')"
    by (cases "r_create repo cdto (store w)")
      (simp add: createUser_def catch_createUser_def split: thrown.splits)
next
  assume h: "trim i \<noteq> [] \<and> validateUpdateDto udto = [] \<and>
    (r_findById repo i (store w) = Inl e \<or>
     (\<exists>x. r_findById repo i (store w) = Inr (Some x)) \<and>
       fst (r_update repo i udto (store w)) = Inl e)"
  then show "fst (updateUser repo pf i udto w) =
        failure (case e of Error m \<Rightarrow> m | NonError v \<Rightarrow> ''Failed to update user'')"
    by (cases "r_update repo i udto (store w)")
      (auto simp: updateUser_def catch_updateUser_def split: thrown.splits)
next
  assume h: "trim i \<noteq> [] \<and>
    (r_findById repo i (store w) = Inl e \<or>
     (\<exists>x. r_findById repo i (store w) = Inr (Some x)) \<and>
       fst (r_delete repo i (store w)) = Inl e)"
  then show "fst (deleteUser repo pf i w) = failure ''Failed to delete user''"
    by (cases "r_delete repo i (store w)")
      (auto simp: deleteUser_def catch_deleteUser_def)
next
  assume "0 \<le> off \<and> 0 < lim \<and> lim \<le> 100 \<and>
    (r_findPaginated repo off lim (store w) = Inl e \<or>
     (\<exists>us. r_findPaginated repo off lim (store w) = Inr us) \<and> r_count repo (store w) = Inl e)"
  then show "fst (getUsersPaginated repo off lim w) = failure ''Failed to retrieve users''"
    by (auto simp: getUsersPaginated_def catch_getUsersPaginated_def)
next
  assume "r_count repo (store w) = Inl e"
  then show "fst (getUserStats repo w) = failure ''Failed to retrieve user statistics''"
    by (simp add: getUserStats_def)
next
  assume "r_findByEmail repo m (store w) = Inl e"
  then show "fst (userExistsByEmail repo m w) = False"
    by (simp add: userExistsByEmail_def)
qed

theorem failures_caught_witness:
  "fst (getAllUsers (downRepository (Error ''disk failure'')) \<lparr>store = (), connections = [], effects = []\<rparr>) =
     failure ''Failed to retrieve users'' \<and>
   fst (getUserById (downRepository (Error ''disk failure'')) ''1''
          \<lparr>store = (), connections = [], effects = []\<rparr>) =
     failure ''Failed to retrieve user'' \<and>
   fst (createUser (downRepository (Error ''disk failure'')) quietPlatform
          \<lparr>c_name = ''Ann Lee'', c_email = ''ann@x.com''\<rparr>
          \<lparr>store = (), connections = [], effects = []\<rparr>) =
     failure ''disk failure'' \<and>
   fst (updateUser (downRepository (Error ''disk failure'')) quietPlatform ''1''
          \<lparr>u_name = Some ''Johnny'', u_email = None\<rparr>
          \<lparr>store = (), connections = [], effects = []\<rparr>) =
     failure ''disk failure'' \<and>
   fst (deleteUser (downRepository (Error ''disk failure'')) quietPlatform ''1''
          \<lparr>store = (), connections = [], effects = []\<rparr>) =
     failure ''Failed to delete user'' \<and>
   fst (getUsersPaginated (downRepository (Error ''disk failure'')) 0 10
          \<lparr>store = (), connections = [], effects = []\<rparr>) =
     failure ''Failed to retrieve users'' \<and>
   fst (getUserStats (downRepository (Error ''disk failure''))
          \<lparr>store = (), connections = [], effects = []\<rparr>) =
     failure ''Failed to retrieve user statistics'' \<and>
   fst (userExistsByEmail (downRepository (Error ''disk failure'')) ''ann@x.com''
          \<lparr>store = (), connections = [], effects = []\<rparr>) = False"
  using failures_caught
    [where repo = "downRepository (Error ''disk failure'')" and e = "Error ''disk failure''"
      and w = "\<lparr>store = (), connections = [], effects = []\<rparr>" and i = "''1''"
      and pf = quietPlatform and cdto = "\<lparr>c_name = ''Ann Lee'', c_email = ''ann@x.com''\<rparr>"
      and udto = "\<lparr>u_name = Some ''Johnny'', u_email = None\<rparr>" and off = 0 and lim = 10
      and m = "''ann@x.com''"]
  by (simp add: downRepository_def validateCreateDto_def validateUpdateDto_def isValidName_def
      isValidEmail_def email_char_def trim_def is_space_def)

text \<open>
  C3, as the specification states it, fails: when the repository throws an \<^verbatim>\<open>Error\<close>
  whose message names the host of the database, \<^verbatim>\<open>createUser\<close> and \<^verbatim>\<open>updateUser\<close>
  return that message to the caller.
\<close>

theorem unexpected_failure_counterexample:
  "fst (createUser (downRepository (Error ''connect ECONNREFUSED 10.0.0.5:5432'')) quietPlatform
          \<lparr>c_name = ''Ann Lee'', c_email = ''ann@x.com''\<rparr>
          \<lparr>store = (), connections = [], effects = []\<rparr>) =
     \<lparr>data = None, error = Some ''connect ECONNREFUSED 10.0.0.5:5432'', message = None\<rparr> \<and>
   fst (updateUser (downRepository (Error ''connect ECONNREFUSED 10.0.0.5:5432'')) quietPlatform
          ''1'' \<lparr>u_name = Some ''Johnny'', u_email = None\<rparr>
          \<lparr>store = (), connections = [], effects = []\<rparr>) =
     \<lparr>data = None, error = Some ''connect ECONNREFUSED 10.0.0.5:5432'', message = None\<rparr>"
  by (simp add: createUser_def updateUser_def downRepository_def validateCreateDto_def
      validateUpdateDto_def isValidName_def isValidEmail_def email_char_def is_space_def trim_def
      catch_createUser_def catch_updateUser_def failure_def)

section \<open>Updating\<close>



section \<open>Conflicts on the email\<close>

text \<open>
  The two facts in their general form: \<^verbatim>\<open>createUser\<close> with the email of a live user is
  a conflict whenever that email is valid, and \<^verbatim>\<open>updateUser\<close> with the email of another
  live user is a conflict in every array that satisfies \<open>store_ok\<close>. Both conditions hold
  in every state the process reaches (\<open>reachable_store_ok\<close>).
\<close>

lemma createUser_conflict_of_valid_email:
  assumes "u \<in> set (store w)" and "isValidEmail (email u)" and "isValidName n"
  shows "createUser (UserRepository a) pf \<lparr>c_name = n, c_email = email u\<rparr> w =
           (failure ''User with this email already exists'',
            emit [ConsoleError ''Error creating user:''
                    (Error ''User with this email already exists'')] w) \<and>
         includes_str ''User with this email already exists'' ''already exists'' \<and>
         createUser_status ''User with this email already exists'' = 409 \<and>
         store (snd (createUser (UserRepository a) pf \<lparr>c_name = n, c_email = email u\<rparr> w)) =
           store w \<and>
         connections (snd (createUser (UserRepository a) pf \<lparr>c_name = n, c_email = email u\<rparr> w)) =
           connections w"
proof -
  from assms(2,3) have v: "validateCreateDto \<lparr>c_name = n, c_email = email u\<rparr> = []"
    by (simp add: validateCreateDto_Nil)
  have f: "findByEmail (email u) (store w) \<noteq> None"
    using assms(1) by (auto simp: findByEmail_def find_None_iff)
  show ?thesis
    using v f by (simp add: createUser_cases createUser_status_def)
qed

lemma updateUser_conflict_of_store_ok:
  assumes "store_ok (store w)" and "A \<in> set (store w)" and "B \<in> set (store w)" and "A \<noteq> B"
  shows "updateUser (UserRepository a) pf (id' B) \<lparr>u_name = None, u_email = Some (email A)\<rparr> w =
           (failure ''User with this email already exists'',
            emit [ConsoleError ''Error updating user:''
                    (Error ''User with this email already exists'')] w) \<and>
         updateUser_status ''User with this email already exists'' = 409 \<and>
         findById (id' B)
           (store (snd (updateUser (UserRepository a) pf (id' B)
                          \<lparr>u_name = None, u_email = Some (email A)\<rparr> w))) = Some B \<and>
         fst (updateUser (UserRepository a) pf (id' A) \<lparr>u_name = None, u_email = Some (email A)\<rparr> w) =
           success (A\<lparr>updatedAt := now2 a\<rparr>) ''User updated successfully'' \<and>
         findById (id' A)
           (store (snd (updateUser (UserRepository a) pf (id' A)
                          \<lparr>u_name = None, u_email = Some (email A)\<rparr> w))) =
           Some (A\<lparr>updatedAt := now1 a\<rparr>)"
proof -
  let ?dto = "\<lparr>u_name = None, u_email = Some (email A)\<rparr>"
  let ?us = "store w"
  from assms(1) have ok: "store_ok ?us" .
  have di: "distinct (map id' ?us)" and de: "distinct (map email ?us)"
    using ok by (simp_all add: store_ok_def)
  have vA: "isValidEmail (email A)" and nbA: "trim (id' A) \<noteq> []" and nbB: "trim (id' B) \<noteq> []"
    using ok assms(2,3) by (auto simp: store_ok_def list_all_iff)
  have v: "validateUpdateDto ?dto = []"
    using vA by (simp add: validateUpdateDto_def)
  have tr: "truthy (u_email ?dto)"
    using vA by (auto simp: truthy_def dest: isValidEmail_nonempty)
  have idAB: "id' A \<noteq> id' B"
    using di assms(2,3,4) by (auto simp: distinct_map inj_on_def)
  have byid: "findById (id' x) ?us = Some x" if "x \<in> set ?us" for x
  proof -
    from that obtain y where y: "findById (id' x) ?us = Some y"
      by (cases "findById (id' x) ?us") (auto simp: findById_def find_None_iff)
    then have "y \<in> set ?us" "id' y = id' x"
      by (auto simp: findById_def find_Some_iff)
    with di that have "y = x" by (auto simp: distinct_map inj_on_def)
    with y show ?thesis by simp
  qed
  obtain x where x: "findByEmail (email A) ?us = Some x"
    using assms(2) by (cases "findByEmail (email A) ?us") (auto simp: findByEmail_def find_None_iff)
  from email_owner [OF de x assms(2)] have xA: "x = A" by simp
  \<comment> \<open>the other user's email: conflict\<close>
  from find_findIndex [OF byid [OF assms(3), unfolded findById_def]] obtain kB where
    kB: "findIndex (\<lambda>u. id' u = id' B) ?us = Some kB" by blast
  have uB: "update (now1 a) (now2 a) (id' B) ?dto ?us =
              (Inl (Error ''User with this email already exists''), ?us)"
    using kB tr x xA idAB by (simp add: update_def)
  have rB: "updateUser (UserRepository a) pf (id' B) ?dto w =
           (failure ''User with this email already exists'',
            emit [ConsoleError ''Error updating user:''
                    (Error ''User with this email already exists'')] w)"
    using nbB v byid [OF assms(3)] uB
    by (simp add: updateUser_def UserRepository_simps catch_updateUser_def)
  \<comment> \<open>the user's own email: no conflict\<close>
  from find_findIndex [OF byid [OF assms(2), unfolded findById_def]] obtain kA where
    kA: "kA < length ?us" "findIndex (\<lambda>u. id' u = id' A) ?us = Some kA" "?us ! kA = A" by blast
  have mA: "UserModel_update (now1 a) A ?dto = A\<lparr>updatedAt := now1 a\<rparr>"
    by (simp add: UserModel_update_def)
  have uA: "update (now1 a) (now2 a) (id' A) ?dto ?us =
              (Inr (Some (A\<lparr>updatedAt := now2 a\<rparr>)), ?us[kA := A\<lparr>updatedAt := now1 a\<rparr>])"
    using kA tr x xA mA by (simp add: update_def Let_def)
  have rA: "updateUser (UserRepository a) pf (id' A) ?dto w =
           (success (A\<lparr>updatedAt := now2 a\<rparr>) ''User updated successfully'',
            broadcast pf \<lparr>type' = updated, user = A\<lparr>updatedAt := now2 a\<rparr>\<rparr>
              (w\<lparr>store := ?us[kA := A\<lparr>updatedAt := now1 a\<rparr>]\<rparr>))"
    using nbA v byid [OF assms(2)] uA
    by (simp add: updateUser_def UserRepository_simps broadcastUserEvent_def)
  have fA: "findById (id' A) (?us[kA := A\<lparr>updatedAt := now1 a\<rparr>]) = Some (A\<lparr>updatedAt := now1 a\<rparr>)"
    unfolding findById_def by (rule find_list_update [OF kA(2)]) simp
  show ?thesis
    using rB rA fA byid [OF assms(3)] by (simp add: updateUser_status_def)
qed

text \<open>
  C5. In every state the process reaches, for every live user \<open>u\<close> and every valid name,
  \<^verbatim>\<open>createUser\<close> with the email of \<open>u\<close> returns the error
  \<^verbatim>\<open>User with this email already exists\<close>, which contains \<^verbatim>\<open>already exists\<close> and which the
  controller answers with status 409; the array of users and the set of connections are
  as before: no record is added and none is modified.
\<close>

theorem createUser_existing_email_conflict:
  assumes "reachable w" and "u \<in> set (store w)" and "isValidName n"
  shows "createUser (UserRepository a) pf \<lparr>c_name = n, c_email = email u\<rparr> w =
           (failure ''User with this email already exists'',
            emit [ConsoleError ''Error creating user:''
                    (Error ''User with this email already exists'')] w) \<and>
         includes_str ''User with this email already exists'' ''already exists'' \<and>
         createUser_status ''User with this email already exists'' = 409 \<and>
         store (snd (createUser (UserRepository a) pf \<lparr>c_name = n, c_email = email u\<rparr> w)) =
           store w \<and>
         connections (snd (createUser (UserRepository a) pf \<lparr>c_name = n, c_email = email u\<rparr> w)) =
           connections w"
proof -
  from reachable_store_ok [OF assms(1)] assms(2) have "isValidEmail (email u)"
    by (auto simp: store_ok_def list_all_iff)
  from createUser_conflict_of_valid_email [OF assms(2) this assms(3)] show ?thesis .
qed

theorem createUser_existing_email_conflict_witness:
  "reachable \<lparr>store = seed (\<lambda>k. 0), connections = [], effects = []\<rparr> \<and>
   isValidName ''Ann Lee'' \<and>
   fst (createUser (UserRepository \<lparr>uuid = ''u'', now1 = 2000, now2 = 2001, now3 = 2002\<rparr>)
          quietPlatform \<lparr>c_name = ''Ann Lee'', c_email = ''john@example.com''\<rparr>
          \<lparr>store = seed (\<lambda>k. 0), connections = [], effects = []\<rparr>) =
     \<lparr>data = None, error = Some ''User with this email already exists'', message = None\<rparr> \<and>
   store (snd (createUser (UserRepository \<lparr>uuid = ''u'', now1 = 2000, now2 = 2001, now3 = 2002\<rparr>)
          quietPlatform \<lparr>c_name = ''Ann Lee'', c_email = ''john@example.com''\<rparr>
          \<lparr>store = seed (\<lambda>k. 0), connections = [], effects = []\<rparr>)) = seed (\<lambda>k. 0)"
proof -
  let ?w = "\<lparr>store = seed (\<lambda>k. 0), connections = [], effects = []\<rparr>"
  let ?u = "\<lparr>id' = ''1'', name = ''John Doe'', email = ''john@example.com'',
            createdAt = 0, updatedAt = 0\<rparr>"
  have r: "reachable ?w" by (rule reachable.boot)
  have m: "?u \<in> set (store ?w)" by (simp add: seed_def)
  have n: "isValidName ''Ann Lee''" by (simp add: isValidName_def trim_def is_space_def)
  from createUser_existing_email_conflict [OF r m n,
      of "\<lparr>uuid = ''u'', now1 = 2000, now2 = 2001, now3 = 2002\<rparr>" quietPlatform] r n
  show ?thesis by (simp add: failure_def)
qed

text \<open>
  C6. In every state the process reaches, for every two distinct live users \<open>A\<close> and
  \<open>B\<close>: \<^verbatim>\<open>updateUser\<close> of \<open>B\<close> with the email of \<open>A\<close> returns the error
  \<^verbatim>\<open>User with this email already exists\<close>, which the controller answers with status 409,
  and the record of \<open>B\<close> is as before; \<^verbatim>\<open>updateUser\<close> of \<open>A\<close> with its own email
  succeeds and returns \<open>A\<close> with a new \<^verbatim>\<open>updatedAt\<close>.
\<close>

theorem updateUser_email_conflict_or_own:
  assumes "reachable w" and "A \<in> set (store w)" and "B \<in> set (store w)" and "A \<noteq> B"
  shows "updateUser (UserRepository a) pf (id' B) \<lparr>u_name = None, u_email = Some (email A)\<rparr> w =
           (failure ''User with this email already exists'',
            emit [ConsoleError ''Error updating user:''
                    (Error ''User with this email already exists'')] w) \<and>
         updateUser_status ''User with this email already exists'' = 409 \<and>
         findById (id' B)
           (store (snd (updateUser (UserRepository a) pf (id' B)
                          \<lparr>u_name = None, u_email = Some (email A)\<rparr> w))) = Some B \<and>
         fst (updateUser (UserRepository a) pf (id' A) \<lparr>u_name = None, u_email = Some (email A)\<rparr> w) =
           success (A\<lparr>updatedAt := now2 a\<rparr>) ''User updated successfully'' \<and>
         findById (id' A)
           (store (snd (updateUser (UserRepository a) pf (id' A)
                          \<lparr>u_name = None, u_email = Some (email A)\<rparr> w))) =
           Some (A\<lparr>updatedAt := now1 a\<rparr>)"
  by (rule updateUser_conflict_of_store_ok [OF reachable_store_ok [OF assms(1)] assms(2-4)])

theorem updateUser_email_conflict_or_own_witness:
  "reachable \<lparr>store = seed (\<lambda>k. 0), connections = [], effects = []\<rparr> \<and>
   fst (updateUser (UserRepository \<lparr>uuid = ''u'', now1 = 2000, now2 = 2001, now3 = 2002\<rparr>)
          quietPlatform ''2'' \<lparr>u_name = None, u_email = Some ''john@example.com''\<rparr>
          \<lparr>store = seed (\<lambda>k. 0), connections = [], effects = []\<rparr>) =
     \<lparr>data = None, error = Some ''User with this email already exists'', message = None\<rparr> \<and>
   store (snd (updateUser (UserRepository \<lparr>uuid = ''u'', now1 = 2000, now2 = 2001, now3 = 2002\<rparr>)
          quietPlatform ''2'' \<lparr>u_name = None, u_email = Some ''john@example.com''\<rparr>
          \<lparr>store = seed (\<lambda>k. 0), connections = [], effects = []\<rparr>)) = seed (\<lambda>k. 0) \<and>
   fst (updateUser (UserRepository \<lparr>uuid = ''u'', now1 = 2000, now2 = 2001, now3 = 2002\<rparr>)
          quietPlatform ''1'' \<lparr>u_name = None, u_email = Some ''john@example.com''\<rparr>
          \<lparr>store = seed (\<lambda>k. 0), connections = [], effects = []\<rparr>) =
     \<lparr>data = Some \<lparr>id' = ''1'', name = ''John Doe'', email = ''john@example.com'',
                     createdAt = 0, updatedAt = 2001\<rparr>,
      error = None, message = Some ''User updated successfully''\<rparr>"
proof -
  let ?w = "\<lparr>store = seed (\<lambda>k. 0), connections = [], effects = []\<rparr>"
  let ?A = "\<lparr>id' = ''1'', name = ''John Doe'', email = ''john@example.com'',
            createdAt = 0, updatedAt = 0\<rparr>"
  let ?B = "\<lparr>id' = ''2'', name = ''Jane Smith'', email = ''jane@example.com'',
            createdAt = 0, updatedAt = 0\<rparr>"
  have r: "reachable ?w" by (rule reachable.boot)
  have mA: "?A \<in> set (store ?w)" and mB: "?B \<in> set (store ?w)" by (simp_all add: seed_def)
  have ne: "?A \<noteq> ?B" by simp
  from updateUser_email_conflict_or_own [OF r mA mB ne,
      of "\<lparr>uuid = ''u'', now1 = 2000, now2 = 2001, now3 = 2002\<rparr>" quietPlatform] r
  show ?thesis by (simp add: failure_def success_def emit_def)
qed

section \<open>Uniqueness of the email in the repository\<close>


end
